theory Spec2Isabelle
  imports Main
begin

section \<open>JSON documents and fallible access\<close>

text \<open>
  The launcher reads three JSON documents (the version manifest, the per-version
  descriptor and the asset index) through rapidjson. A document is a tree; an object keeps
  its members in order, and a lookup takes the first member of that name.
\<close>

datatype json =
    JNull
  | JBool bool
  | JNumber int
  | JString string
  | JArray "json list"
  | JObject "(string \<times> json) list"

text \<open>
  Every way the code can stop early is a value: the two exceptions that the sources
  throw, a failed \<open>assert\<close> (also the assertions rapidjson makes when a value has not
  the type asked for, and \<open>ASSERT_NOREACH\<close>), \<open>std::map::at\<close> on a missing key, a
  required member that is absent, and a checksum mismatch.
\<close>

datatype error =
    VersionNotFoundException
  | FileOpenError
  | AssertionFailed
  | OutOfRange
  | StructuralError
  | IntegrityError

definition ebind :: "error + 'a \<Rightarrow> ('a \<Rightarrow> error + 'b) \<Rightarrow> error + 'b" where
  "ebind m f = (case m of Inl e \<Rightarrow> Inl e | Inr x \<Rightarrow> f x)"

text \<open>
  rapidjson's \<open>GetString\<close> returns a \<open>const char*\<close>. Every use of it in the sources
  reads it as a C string: it is assigned to a \<open>std::string\<close>, made a \<open>string_view\<close>
  or a path, or compared with a \<open>std::string\<close>; so what the code gets of a JSON string
  is its characters up to the first NUL.
\<close>

definition c_str :: "string \<Rightarrow> string" where
  "c_str s = takeWhile (\<lambda>c. c \<noteq> CHR 0x00) s"

definition GetString :: "json \<Rightarrow> error + string" where
  "GetString v = (case v of JString s \<Rightarrow> Inr (c_str s) | _ \<Rightarrow> Inl AssertionFailed)"

definition GetArray :: "json \<Rightarrow> error + json list" where
  "GetArray v = (case v of JArray vs \<Rightarrow> Inr vs | _ \<Rightarrow> Inl AssertionFailed)"

definition GetObject :: "json \<Rightarrow> error + json" where
  "GetObject v = (case v of JObject ms \<Rightarrow> Inr (JObject ms) | _ \<Rightarrow> Inl AssertionFailed)"

definition object_members :: "json \<Rightarrow> (string \<times> json) list" where
  "object_members v = (case v of JObject ms \<Rightarrow> ms | _ \<Rightarrow> [])"

definition HasMember :: "json \<Rightarrow> string \<Rightarrow> error + bool" where
  "HasMember v k = (case v of JObject ms \<Rightarrow> Inr (map_of ms k \<noteq> None) | _ \<Rightarrow> Inl AssertionFailed)"

definition json_subscript :: "json \<Rightarrow> string \<Rightarrow> error + json" where
  "json_subscript v k =
     (case v of
        JObject ms \<Rightarrow> (case map_of ms k of Some x \<Rightarrow> Inr x | None \<Rightarrow> Inl AssertionFailed)
      | _ \<Rightarrow> Inl AssertionFailed)"

text \<open>
  Modelled from the spec: \<open>json_access\<close> is declared in a header that is not among the
  sources. The spec calls a required member that is missing a fatal structural error, so
  the helper is the member lookup that fails with \<open>StructuralError\<close> when the member is
  absent (or the value is no object).
\<close>

definition json_access :: "json \<Rightarrow> string \<Rightarrow> error + json" where
  "json_access v k =
     (case v of
        JObject ms \<Rightarrow> (case map_of ms k of Some x \<Rightarrow> Inr x | None \<Rightarrow> Inl StructuralError)
      | _ \<Rightarrow> Inl StructuralError)"

section \<open>The world of net/assets.cc\<close>

type_synonym path = string
type_synonym url = string

text \<open>
  \<open>fs::path::operator/\<close> on POSIX: an absolute right operand replaces the left one;
  otherwise a separator is added when the left operand has a file name (is not empty and
  does not end in a separator), and the right operand is appended.
\<close>

definition path_join :: "path \<Rightarrow> path \<Rightarrow> path" where
  "path_join p q =
     (if q \<noteq> [] \<and> hd q = CHR ''/'' then q
      else if p = [] \<or> last p = CHR ''/'' then p @ q
      else p @ CHR ''/'' # q)"

text \<open>
  The state outside the process: the regular files with their contents, the directories
  made, the URLs requested so far (in order) and the lines written to the console.
  An exception leaves the state as it was when thrown, so a fallible step returns its
  result (or the error) together with the state.
\<close>

record world =
  files :: "path \<rightharpoonup> string"
  dirs :: "path set"
  requests :: "url list"
  console :: "string list"

text \<open>
  What the functions of the sources use and do not define: the launcher's directory, the
  constants of the headers (with the table from a \<open>MinecraftVersion\<close>, an enumeration
  counted here by its ordinal, to its version string, and the reading of a rule's action
  as a truth value), the remote side (the body a request for a URL is answered with),
  rapidjson's parser (of the C string of a text), SHA-1, the cached download of the
  asset index and the reading of a zip archive's directory (the stat of each entry,
  \<open>None\<close> where \<open>zip_stat_index\<close> fails, or \<open>None\<close> for the whole when \<open>zip_open\<close>
  fails). \<open>OS_STRING\<close> and \<open>ARCH_STRING\<close> are string literals, which a comparison
  reads as C strings.
\<close>

record env =
  internal_dir :: path
  ASSETS_DIR :: path
  VERSION_MANIFEST_URL :: url
  OS_STRING :: string
  ARCH_STRING :: string
  mc_version_reverse_map :: "nat \<rightharpoonup> string"
  is_allowed :: "string \<Rightarrow> bool"
  remote :: "url \<Rightarrow> string"
  json_parse :: "string \<Rightarrow> json"
  sha1 :: "string \<Rightarrow> string"
  download_cached_file :: "url \<Rightarrow> path \<Rightarrow> bool \<Rightarrow> world \<Rightarrow> string \<times> world"
  zip_open :: "path \<Rightarrow> world \<Rightarrow> string option list option"

text \<open>The macros \<open>OUT\<close> and \<open>OUT_LIT\<close> write a line to the console.\<close>

definition OUT :: "string \<Rightarrow> world \<Rightarrow> world" where
  "OUT line w = w\<lparr>console := console w @ [line]\<rparr>"

text \<open>
  Modelled from the spec: the filesystem utilities \<open>file_exists\<close>,
  \<open>create_dir_if_not_exists\<close> and \<open>create_leading_directories\<close> are called by the
  core and are not among its sources. They are the existence check of a file, the
  creation of a directory, and the creation of the directories that lead to a path.
\<close>

definition file_exists :: "path \<Rightarrow> world \<Rightarrow> bool" where
  "file_exists p w = (files w p \<noteq> None)"

definition create_dir_if_not_exists :: "path \<Rightarrow> world \<Rightarrow> world" where
  "create_dir_if_not_exists p w = w\<lparr>dirs := insert p (dirs w)\<rparr>"

definition leading_directories :: "path \<Rightarrow> path list" where
  "leading_directories p = [take i p. i \<leftarrow> [1..<length p], p ! i = CHR ''/'']"

definition create_leading_directories :: "path \<Rightarrow> world \<Rightarrow> world" where
  "create_leading_directories p w = w\<lparr>dirs := dirs w \<union> set (leading_directories p)\<rparr>"

subsection \<open>DownloadHelper\<close>

text \<open>
  Modelled from the spec: the class \<open>DownloadHelper\<close> is not among the sources. A
  helper is a download task: a mode, a URL, a destination, and the body as a string once
  it has performed in the mode \<open>FILE_AND_STR\<close>.
\<close>

datatype download_mode = FILE | FILE_AND_STR

record DownloadHelper =
  h_mode :: download_mode
  h_url :: url
  h_path :: path
  h_str :: string

definition new_helper :: DownloadHelper where
  "new_helper = \<lparr>h_mode = FILE, h_url = [], h_path = [], h_str = []\<rparr>"

definition set_options :: "download_mode \<Rightarrow> url \<Rightarrow> path \<Rightarrow> DownloadHelper \<Rightarrow> DownloadHelper" where
  "set_options m u p h = h\<lparr>h_mode := m, h_url := u, h_path := p\<rparr>"

text \<open>
  Modelled from the spec: \<open>DownloadHelper::perform\<close> is not among the sources. It
  requests the URL and writes the body to the helper's destination; in the mode
  \<open>FILE_AND_STR\<close> the helper keeps the body as a string too.
\<close>

definition perform :: "env \<Rightarrow> DownloadHelper \<Rightarrow> world \<Rightarrow> DownloadHelper \<times> world" where
  "perform e h w =
     (let body = remote e (h_url h)
      in (if h_mode h = FILE_AND_STR then h\<lparr>h_str := body\<rparr> else h,
          w\<lparr>files := (files w)(h_path h \<mapsto> body), requests := requests w @ [h_url h]\<rparr>))"

definition get_str :: "DownloadHelper \<Rightarrow> string" where
  "get_str h = h_str h"

text \<open>
  Modelled from the spec: \<open>DownloadHelper::sha1_checksum\<close> is not among the sources.
  The spec has the fetch verify that the checksum of the response body equals the expected
  one, a mismatch being a fatal integrity error; so the helper fails with
  \<open>IntegrityError\<close> when the SHA-1 of the body it holds differs from its argument.
\<close>

definition sha1_checksum :: "env \<Rightarrow> DownloadHelper \<Rightarrow> string \<Rightarrow> error + unit" where
  "sha1_checksum e h checksum =
     (if sha1 e (get_str h) = checksum then Inr () else Inl IntegrityError)"

subsection \<open>get_version_manifest and obtain_version_json\<close>

definition get_version_manifest :: "env \<Rightarrow> world \<Rightarrow> DownloadHelper \<times> world" where
  "get_version_manifest e w =
     (let assets_path = path_join (internal_dir e) (ASSETS_DIR e);
          w1 = create_dir_if_not_exists assets_path w;
          w2 = OUT ''Obtaining version index...'' w1;
          manifest_file_path = path_join assets_path ''version_manifest.json'';
          helper = set_options FILE_AND_STR (VERSION_MANIFEST_URL e) manifest_file_path new_helper
      in perform e helper w2)"

text \<open>
  The scan of the manifest's versions (lines 27 to 39): \<open>ver_url\<close> and \<open>ver_hash\<close> start
  empty and are set at the first entry whose id is the requested one, where the loop
  breaks. The id, the url and the sha1 are the C strings that \<open>GetString\<close> gives.
\<close>

fun find_version :: "string \<Rightarrow> json list \<Rightarrow> error + (string \<times> string)" where
  "find_version v [] = Inr ([], [])"
| "find_version v (ver # vers) =
     (case GetObject ver of Inl x \<Rightarrow> Inl x | Inr ver_obj \<Rightarrow>
       (case ebind (json_access ver_obj ''id'') GetString of Inl x \<Rightarrow> Inl x | Inr ver_id \<Rightarrow>
          if ver_id = v then
            ebind (ebind (json_access ver_obj ''url'') GetString) (\<lambda>ver_url.
            ebind (ebind (json_access ver_obj ''sha1'') GetString) (\<lambda>ver_hash.
              if length ver_hash = 40 then Inr (ver_url, ver_hash) else Inl AssertionFailed))
          else find_version v vers))"

definition obtain_version_json ::
  "env \<Rightarrow> string \<Rightarrow> world \<Rightarrow> (error + DownloadHelper \<times> json) \<times> world" where
  "obtain_version_json e v w =
     (let w1 = OUT ''Downloading version json...'' w;
          (helper, w2) = get_version_manifest e w1;
          manifest_file = get_str helper;
          doc = json_parse e manifest_file
      in case ebind (ebind (json_access doc ''versions'') GetArray) (find_version v) of
           Inl x \<Rightarrow> (Inl x, w2)
         | Inr (ver_url, ver_hash) \<Rightarrow>
             if ver_url = [] then (Inl VersionNotFoundException, w2)
             else
               let index_file_name = v @ ''.json'';
                   index_file_path =
                     path_join (path_join (internal_dir e) (ASSETS_DIR e)) index_file_name;
                   (helper', w3) =
                     perform e (set_options FILE_AND_STR ver_url index_file_path helper) w2
               in (case sha1_checksum e helper' ver_hash of
                     Inl x \<Rightarrow> (Inl x, w3)
                   | Inr _ \<Rightarrow> (Inr (helper', json_parse e (get_str helper')), w3)))"

subsection \<open>install_native_library\<close>

text \<open>
  The function opens the archive and, for every entry whose stat succeeds, writes the
  line \<open>NATIVE<name>\<close> to the console. When \<open>zip_open\<close> fails the entry count is -1 and
  the loop body never runs. An archive is taken to have fewer than \<open>2^32\<close> entries, so
  that the loop's 32-bit counter reaches the count.
\<close>

fun native_entries :: "string option list \<Rightarrow> world \<Rightarrow> world" where
  "native_entries [] w = w"
| "native_entries (st # sts) w =
     native_entries sts (case st of Some st_name \<Rightarrow> OUT (''NATIVE'' @ st_name) w | None \<Rightarrow> w)"

definition install_native_library :: "env \<Rightarrow> path \<Rightarrow> world \<Rightarrow> world" where
  "install_native_library e p w =
     (case zip_open e p w of None \<Rightarrow> w | Some z \<Rightarrow> native_entries z w)"

subsection \<open>obtain_libraries\<close>

text \<open>
  What the two loops of \<open>obtain_libraries\<close> build: the helpers added to the
  \<open>MultiDownloadHelper\<close> (the download tasks) and the vector \<open>native_libs\<close>.
\<close>

record acquisition =
  multi_helper :: "DownloadHelper list"
  native_libs :: "path list"

definition add_helper :: "DownloadHelper \<Rightarrow> acquisition \<Rightarrow> acquisition" where
  "add_helper h a = a\<lparr>multi_helper := multi_helper a @ [h]\<rparr>"

text \<open>
  A range-based \<open>for\<close> whose body may throw: the elements in order, stopping at the
  first error.
\<close>

fun for_each ::
  "('x \<Rightarrow> acquisition \<Rightarrow> world \<Rightarrow> (error + acquisition) \<times> world) \<Rightarrow> 'x list \<Rightarrow>
     acquisition \<Rightarrow> world \<Rightarrow> (error + acquisition) \<times> world" where
  "for_each body [] a w = (Inr a, w)"
| "for_each body (x # xs) a w =
     (case body x a w of
        (Inl err, w') \<Rightarrow> (Inl err, w')
      | (Inr a', w') \<Rightarrow> for_each body xs a' w')"

text \<open>
  The rule loop of a library (lines 104 to 118). One rule sets \<open>rule_fail\<close> or leaves it
  as it is; nothing ever resets it. The action and the name of the OS are
  \<open>string_view\<close>s of the C strings that \<open>GetString\<close> gives, and so is what \<open>OS_STRING\<close>
  is compared as.
\<close>

definition library_rule :: "env \<Rightarrow> json \<Rightarrow> bool \<Rightarrow> error + bool" where
  "library_rule e rule rule_fail =
     ebind (ebind (json_access rule ''action'') GetString) (\<lambda>action.
     ebind (HasMember rule ''os'') (\<lambda>has_os.
       if has_os then
         ebind (json_subscript rule ''os'') (\<lambda>os.
         ebind (ebind (json_access os ''name'') GetString) (\<lambda>os_name.
           Inr (if (action = ''allow'' \<and> os_name \<noteq> c_str (OS_STRING e))
                   \<or> (action = ''disallow'' \<and> os_name = c_str (OS_STRING e))
                then True else rule_fail)))
       else Inr rule_fail))"

fun library_rules :: "env \<Rightarrow> json list \<Rightarrow> bool \<Rightarrow> error + bool" where
  "library_rules e [] rule_fail = Inr rule_fail"
| "library_rules e (rule # rules) rule_fail =
     (case library_rule e rule rule_fail of
        Inl x \<Rightarrow> Inl x
      | Inr rule_fail' \<Rightarrow> library_rules e rules rule_fail')"

text \<open>
  The body of the loop over the libraries (lines 84 to 124), for one library: what is
  read of the library first (lines 84 to 90), the rule check (lines 104 to 119), and the
  whole body.
\<close>

definition library_fields :: "json \<Rightarrow> error + json \<times> json \<times> string \<times> string \<times> bool" where
  "library_fields lib_val =
     ebind (GetObject lib_val) (\<lambda>lib.
     ebind (ebind (ebind (json_access lib ''downloads'') (\<lambda>d. json_access d ''artifact''))
              GetObject) (\<lambda>download_artifact.
     ebind (ebind (json_access lib ''name'') GetString) (\<lambda>name.
     ebind (ebind (json_access download_artifact ''path'') GetString) (\<lambda>path_str.
     ebind (HasMember lib ''natives'') (\<lambda>has_natives.
       Inr (lib, download_artifact, name, path_str, has_natives))))))"

definition check_rules :: "env \<Rightarrow> json \<Rightarrow> error + bool" where
  "check_rules e lib =
     ebind (HasMember lib ''rules'') (\<lambda>has_rules.
       if has_rules then
         ebind (ebind (json_subscript lib ''rules'') GetArray) (\<lambda>rules.
           library_rules e rules False)
       else Inr False)"

definition obtain_library ::
  "env \<Rightarrow> path \<Rightarrow> path \<Rightarrow> json \<Rightarrow> acquisition \<Rightarrow> world \<Rightarrow> (error + acquisition) \<times> world" where
  "obtain_library e libraries_path natives_path lib_val a w =
     (case library_fields lib_val of
        Inl x \<Rightarrow> (Inl x, w)
      | Inr (lib, download_artifact, name, path_str, has_natives) \<Rightarrow>
          let p = (if has_natives then path_join natives_path path_str
                   else path_join libraries_path path_str);
              a1 = (if has_natives then a\<lparr>native_libs := native_libs a @ [p]\<rparr> else a)
          in
            if file_exists p w then (Inr a1, w)
            else
              let w1 = create_leading_directories p w in
              (case ebind (json_access download_artifact ''url'') GetString of
                 Inl x \<Rightarrow> (Inl x, w1)
               | Inr u \<Rightarrow>
                  (case check_rules e lib of
                     Inl x \<Rightarrow> (Inl x, w1)
                   | Inr rule_fail \<Rightarrow>
                       if rule_fail then (Inr a1, w1)
                       else
                         (Inr (add_helper (set_options FILE u p new_helper) a1),
                          OUT (''Found library '' @ name) w1))))"

text \<open>
  The body of the loop over the asset index's objects (lines 142 to 153), for the value
  of one member.
\<close>

definition obtain_asset ::
  "path \<Rightarrow> json \<Rightarrow> acquisition \<Rightarrow> world \<Rightarrow> (error + acquisition) \<times> world" where
  "obtain_asset assets_path asset_val a w =
     (case ebind (GetObject asset_val) (\<lambda>asset.
             ebind (json_access asset ''hash'') GetString) of
        Inl x \<Rightarrow> (Inl x, w)
      | Inr hash \<Rightarrow>
          let hash_path = take 2 hash @ CHR ''/'' # hash;
              p = path_join (path_join assets_path ''objects'') hash_path
          in
            if file_exists p w then (Inr a, w)
            else
              let u = ''http://resources.download.minecraft.net/'' @ hash_path;
                  w1 = create_leading_directories p w
              in (Inr (add_helper (set_options FILE u p new_helper) a), w1))"

text \<open>
  Modelled from the spec: \<open>MultiDownloadHelper::perform_blocking\<close> is not among the
  sources. It executes all the tasks and returns when every one of them has finished; the
  transfers overlap in time, which the state does not show: here the helpers perform one
  after the other.
\<close>

fun perform_blocking :: "env \<Rightarrow> DownloadHelper list \<Rightarrow> world \<Rightarrow> world" where
  "perform_blocking e [] w = w"
| "perform_blocking e (h # hs) w = perform_blocking e hs (snd (perform e h w))"

fun install_natives :: "env \<Rightarrow> path list \<Rightarrow> world \<Rightarrow> world" where
  "install_natives e [] w = w"
| "install_natives e (p # ps) w = install_natives e ps (install_native_library e p w)"

text \<open>
  \<open>obtain_libraries\<close> in its parts: the libraries (lines 71 to 125), the objects of the
  asset index (lines 134 to 154, from the contents of the index), and the whole function,
  which fetches the descriptor, plans the libraries, gets the asset index, plans the
  assets, runs the downloads and installs the natives.
\<close>

definition plan_libraries ::
  "env \<Rightarrow> string \<Rightarrow> json \<Rightarrow> world \<Rightarrow> (error + acquisition) \<times> world" where
  "plan_libraries e v ret w =
     (let libraries_path = path_join (internal_dir e) ''libraries'';
          w1 = create_dir_if_not_exists libraries_path w;
          natives_path =
            path_join (path_join (path_join (internal_dir e) ''versions'') v) ''natives'';
          w2 = create_leading_directories natives_path w1;
          w3 = OUT ''Downloading libraries...'' w2
      in
       (case ebind (json_access ret ''libraries'') GetArray of
          Inl x \<Rightarrow> (Inl x, w3)
        | Inr libs \<Rightarrow>
            for_each (obtain_library e libraries_path natives_path) libs
              \<lparr>multi_helper = [], native_libs = []\<rparr> w3))"

definition plan_assets ::
  "env \<Rightarrow> path \<Rightarrow> string \<Rightarrow> acquisition \<Rightarrow> world \<Rightarrow> (error + acquisition) \<times> world" where
  "plan_assets e assets_path asset_index_contents a w =
     (let w1 = create_dir_if_not_exists (path_join assets_path ''objects'') w;
          w2 = create_dir_if_not_exists (path_join assets_path ''virtual'') w1;
          asset_index = json_parse e asset_index_contents
      in
       (case ebind (json_access asset_index ''objects'') GetObject of
          Inl x \<Rightarrow> (Inl x, w2)
        | Inr objects \<Rightarrow>
            for_each (\<lambda>asset_val. obtain_asset assets_path (snd asset_val))
              (object_members objects) a w2))"

definition obtain_libraries ::
  "env \<Rightarrow> string \<Rightarrow> world \<Rightarrow> (error + acquisition \<times> json) \<times> world" where
  "obtain_libraries e v w =
     (case obtain_version_json e v w of
        (Inl x, w1) \<Rightarrow> (Inl x, w1)
      | (Inr (helper, ret), w1) \<Rightarrow>
         (case plan_libraries e v ret w1 of
            (Inl x, w2) \<Rightarrow> (Inl x, w2)
          | (Inr a, w2) \<Rightarrow>
              let assets_path = path_join (internal_dir e) ''assets'';
                  w3 = create_dir_if_not_exists (path_join assets_path ''indexes'') w2;
                  asset_index_path =
                    path_join (path_join assets_path ''indexes'') (v @ ''.json'')
              in
               (case ebind (ebind (json_access ret ''assetIndex'')
                              (\<lambda>i. json_access i ''url'')) GetString of
                  Inl x \<Rightarrow> (Inl x, w3)
                | Inr index_url \<Rightarrow>
                    let (asset_index_contents, w4) =
                          download_cached_file e index_url asset_index_path True w3
                    in
                     (case plan_assets e assets_path asset_index_contents a w4 of
                        (Inl x, w5) \<Rightarrow> (Inl x, w5)
                      | (Inr a', w5) \<Rightarrow>
                          let w6 = OUT ''Downloading libraries and assets...'' w5;
                              w7 = perform_blocking e (multi_helper a') w6;
                              w8 = OUT ''Libraries and assets downloaded'' w7;
                              w9 = OUT ''Extracting natives...'' w8
                          in (Inr (a', ret), install_natives e (native_libs a') w9)))))"

section \<open>io/game.cc: the launch arguments\<close>

record User =
  is_offline :: bool
  is_demo :: bool

record CachedPaths =
  internal :: path
  assets :: path

record GameRunner =
  version :: nat
  mc_dir :: path
  jar_path :: path
  user :: User
  classpath :: string
  "output" :: string
  flags :: "string list"

definition add_word :: "string \<Rightarrow> GameRunner \<Rightarrow> GameRunner" where
  "add_word word r = r\<lparr>output := output r @ CHR '' '' # word\<rparr>"

definition add_flag :: "string \<Rightarrow> GameRunner \<Rightarrow> GameRunner" where
  "add_flag flag r = r\<lparr>flags := flags r @ [flag]\<rparr>"

definition write_flags :: "GameRunner \<Rightarrow> GameRunner" where
  "write_flags r = (fold add_word (flags r) r)\<lparr>flags := []\<rparr>"

text \<open>
  Modelled from the spec: \<open>fandr\<close> (find and replace) is not among the sources. The JVM
  phase is said to substitute its placeholders inside a literal, so the helper replaces
  every occurrence of the pattern, left to right, and does not look again at what it has
  put in.
\<close>

function fandr :: "string \<Rightarrow> string \<Rightarrow> string \<Rightarrow> string" where
  "fandr s f r =
     (if s = [] \<or> f = [] then s
      else if take (length f) s = f then r @ fandr (drop (length f) s) f r
      else hd s # fandr (tl s) f r)"
  by pat_completeness auto
termination
  by (relation "measure (\<lambda>(s, f, r). length s)") auto

declare fandr.simps [simp del]

text \<open>The macro of line 35.\<close>

definition GAME_ARG_REPL :: "string \<Rightarrow> string \<Rightarrow> string \<Rightarrow> string" where
  "GAME_ARG_REPL check expr contents = (if contents = check then expr else contents)"

text \<open>The assertion of line 61, and the \<open>return false\<close> after it.\<close>

definition assert_no_dollar :: "string \<Rightarrow> error + bool \<times> string" where
  "assert_no_dollar contents =
     (if CHR ''$'' \<in> set contents then Inl AssertionFailed else Inr (False, contents))"

text \<open>The two branches of \<open>repl_arg_token\<close>, up to the auth block.\<close>

definition jvm_tokens :: "GameRunner \<Rightarrow> CachedPaths \<Rightarrow> string \<Rightarrow> string \<Rightarrow> string" where
  "jvm_tokens r paths version_string contents =
     (let c1 = fandr contents ''${launcher_name}'' ''mcvm'';
          c2 = fandr c1 ''${launcher_version}'' ''alpha'';
          c3 = fandr c2 ''${classpath}'' (CHR 0x22 # classpath r @ [CHR 0x22])
      in fandr c3 ''${natives_directory}''
           (c_str (path_join (path_join (path_join (internal paths) ''versions'')
                                version_string) ''natives'')))"

definition game_tokens :: "GameRunner \<Rightarrow> CachedPaths \<Rightarrow> string \<Rightarrow> string \<Rightarrow> string" where
  "game_tokens r paths version_string contents =
     (let c1 = GAME_ARG_REPL ''${version_name}'' version_string contents;
          c2 = GAME_ARG_REPL ''${version_type}'' ''mcvm'' c1;
          c3 = GAME_ARG_REPL ''${game_directory}'' (mc_dir r) c2;
          c4 = GAME_ARG_REPL ''${assets_root}'' (assets paths) c3
      in GAME_ARG_REPL ''${assets_index_name}'' version_string c4)"

definition auth_tokens :: "string \<Rightarrow> string" where
  "auth_tokens contents =
     (let c1 = GAME_ARG_REPL ''${auth_player_name}'' ''CarbonSmasher'' contents;
          c2 = GAME_ARG_REPL ''${auth_access_token}'' ''abc123abc123'' c1
      in GAME_ARG_REPL ''${auth_uuid}'' ''aaaaa-aaaaa-aaaa-a'' c2)"

text \<open>
  \<open>repl_arg_token\<close> changes \<open>contents\<close> in place and returns a truth value; here it returns
  both. \<open>True\<close> tells the caller to drop the argument.
\<close>

definition repl_arg_token ::
  "env \<Rightarrow> GameRunner \<Rightarrow> string \<Rightarrow> bool \<Rightarrow> CachedPaths \<Rightarrow> error + bool \<times> string" where
  "repl_arg_token e r contents is_jvm paths =
     (case mc_version_reverse_map e (version r) of
        None \<Rightarrow> Inl OutOfRange
      | Some version_string \<Rightarrow>
          if is_jvm then assert_no_dollar (jvm_tokens r paths version_string contents)
          else
            let c = game_tokens r paths version_string contents in
            if is_offline (user r) then
              if c = ''${auth_player_name}'' \<or> c = ''${auth_access_token}'' \<or> c = ''${auth_uuid}''
              then Inr (True, c)
              else assert_no_dollar (GAME_ARG_REPL ''${user_type}'' ''mojang'' c)
            else assert_no_dollar (GAME_ARG_REPL ''${user_type}'' ''mojang'' (auth_tokens c)))"

text \<open>
  One rule of a conditional argument (lines 74 to 95): \<open>False\<close> where the code returns
  from \<open>parse_single_arg\<close>, \<open>True\<close> where the loop goes on. A rapidjson value equals a
  C string when it is a string with the characters of that C string and no more.
\<close>

definition argument_rule :: "env \<Rightarrow> User \<Rightarrow> json \<Rightarrow> error + bool" where
  "argument_rule e u rule_val =
     ebind (GetObject rule_val) (\<lambda>rule.
     ebind (ebind (json_access rule ''action'') GetString) (\<lambda>action.
     let allowed = is_allowed e action in
     ebind (HasMember rule ''os'') (\<lambda>has_os.
     ebind (if has_os then
              ebind (ebind (json_subscript rule ''os'') GetObject) (\<lambda>os.
                Inr ((map_of (object_members os) ''name'' = None
                        \<or> allowed = (map_of (object_members os) ''name''
                                       = Some (JString (c_str (OS_STRING e)))))
                   \<and> (map_of (object_members os) ''arch'' = None
                        \<or> allowed = (map_of (object_members os) ''arch''
                                       = Some (JString (c_str (ARCH_STRING e)))))))
            else Inr True) (\<lambda>os_ok.
       if \<not> os_ok then Inr False
       else
         ebind (HasMember rule ''features'') (\<lambda>has_features.
           if has_features then
             ebind (ebind (json_subscript rule ''features'') GetObject) (\<lambda>features.
               if map_of (object_members features) ''has_custom_resolution'' \<noteq> None
               then Inr False
               else if map_of (object_members features) ''is_demo_user'' \<noteq> None
                       \<and> \<not> is_demo u
               then Inr False
               else Inr True)
           else Inr True)))))"

fun argument_rules :: "env \<Rightarrow> User \<Rightarrow> json list \<Rightarrow> error + bool" where
  "argument_rules e u [] = Inr True"
| "argument_rules e u (rule_val # rules) =
     (case argument_rule e u rule_val of
        Inl x \<Rightarrow> Inl x
      | Inr ok \<Rightarrow> if ok then argument_rules e u rules else Inr False)"

text \<open>
  The end of \<open>parse_single_arg\<close> (lines 106 to 111): the token replacement, the dropping
  of the last flag when it says so, and the new flag otherwise.
\<close>

definition add_contents ::
  "env \<Rightarrow> CachedPaths \<Rightarrow> bool \<Rightarrow> string \<Rightarrow> GameRunner \<Rightarrow> error + GameRunner" where
  "add_contents e paths is_jvm contents r =
     (case repl_arg_token e r contents is_jvm paths of
        Inl x \<Rightarrow> Inl x
      | Inr (dropped, contents') \<Rightarrow>
          if dropped then Inr (if flags r \<noteq> [] then r\<lparr>flags := butlast (flags r)\<rparr> else r)
          else if contents' = [] then Inl AssertionFailed
          else Inr (add_flag contents' r))"

text \<open>
  \<open>parse_single_arg\<close>: a string is the contents (its C string, which is what the
  assignment of line 69 copies); an object is a conditional argument,
  whose value is parsed when no rule returns; an array has each element parsed and then
  falls through to the end of the function with empty contents (only the object branch
  returns). \<open>parse_single_args\<close> is the loop over an array, which \<open>parse_args\<close> runs too.
\<close>

function (sequential) parse_single_arg ::
    "env \<Rightarrow> CachedPaths \<Rightarrow> bool \<Rightarrow> json \<Rightarrow> GameRunner \<Rightarrow> error + GameRunner"
  and parse_single_args ::
    "env \<Rightarrow> CachedPaths \<Rightarrow> bool \<Rightarrow> json list \<Rightarrow> GameRunner \<Rightarrow> error + GameRunner"
where
  "parse_single_arg e paths is_jvm (JString s) r = add_contents e paths is_jvm (c_str s) r"
| "parse_single_arg e paths is_jvm (JObject ms) r =
     (case ebind (json_access (JObject ms) ''rules'') GetArray of
        Inl x \<Rightarrow> Inl x
      | Inr rules \<Rightarrow>
         (case argument_rules e (user r) rules of
            Inl x \<Rightarrow> Inl x
          | Inr permitted \<Rightarrow>
              if permitted then
                (case json_access (JObject ms) ''value'' of
                   Inl x \<Rightarrow> Inl x
                 | Inr v \<Rightarrow> parse_single_arg e paths is_jvm v r)
              else Inr r))"
| "parse_single_arg e paths is_jvm (JArray vs) r =
     (case parse_single_args e paths is_jvm vs r of
        Inl x \<Rightarrow> Inl x
      | Inr r' \<Rightarrow> add_contents e paths is_jvm [] r')"
| "parse_single_arg e paths is_jvm _ r = Inl AssertionFailed"
| "parse_single_args e paths is_jvm [] r = Inr r"
| "parse_single_args e paths is_jvm (v # vs) r =
     (case parse_single_arg e paths is_jvm v r of
        Inl x \<Rightarrow> Inl x
      | Inr r' \<Rightarrow> parse_single_args e paths is_jvm vs r')"
  by pat_completeness auto
termination
proof (relation "measure (\<lambda>x. case x of Inl (e, paths, is_jvm, v, r) \<Rightarrow> size v
                               | Inr (e, paths, is_jvm, vs, r) \<Rightarrow> size_list size vs)")
  fix e :: env and paths :: CachedPaths and is_jvm :: bool
    and ms :: "(string \<times> json) list" and r :: GameRunner and v :: json
  assume "json_access (JObject ms) ''value'' = Inr v"
  then have "map_of ms ''value'' = Some v"
    by (simp add: json_access_def split: option.splits)
  then have "size v < size (JObject ms)"
    by (induction ms) (auto split: if_splits)
  then show "(Inl (e, paths, is_jvm, v, r), Inl (e, paths, is_jvm, JObject ms, r))
      \<in> measure (\<lambda>x. case x of Inl (e, paths, is_jvm, v, r) \<Rightarrow> size v
                            | Inr (e, paths, is_jvm, vs, r) \<Rightarrow> size_list size vs)"
    by simp
qed auto

definition parse_args :: "env \<Rightarrow> json \<Rightarrow> CachedPaths \<Rightarrow> GameRunner \<Rightarrow> error + GameRunner" where
  "parse_args e ret paths r =
     (case ret of
        JObject _ \<Rightarrow>
          ebind (ebind (json_access ret ''arguments'') GetObject) (\<lambda>arguments.
          ebind (ebind (json_access arguments ''game'') GetArray) (\<lambda>game_args.
          ebind (ebind (json_access arguments ''jvm'') GetArray) (\<lambda>jvm_args.
          ebind (parse_single_args e paths True jvm_args r) (\<lambda>r1.
          let r2 = write_flags (add_flag ''-Dorg.lwjgl.util.DebugLoader=true'' r1) in
          ebind (ebind (json_access ret ''mainClass'') GetString) (\<lambda>main_class.
          let r3 = add_word main_class r2 in
          ebind (parse_single_args e paths False game_args r3) (\<lambda>r4.
            Inr (write_flags r4)))))))
      | _ \<Rightarrow> Inl AssertionFailed)"

section \<open>Notions of the statements\<close>

text \<open>
  A manifest entry as the specification has it: the id, the url and the sha1 that the
  scan reads of a member of the versions array. Of an entry that it passes over, the scan
  reads the id only: \<open>other_id v\<close> says that the id can be read and is not \<open>v\<close>.
\<close>

definition entry_id :: "json \<Rightarrow> error + string" where
  "entry_id ver =
     ebind (GetObject ver) (\<lambda>ver_obj. ebind (json_access ver_obj ''id'') GetString)"

definition other_id :: "string \<Rightarrow> json \<Rightarrow> bool" where
  "other_id v ver = (case entry_id ver of Inl x \<Rightarrow> False | Inr ver_id \<Rightarrow> ver_id \<noteq> v)"

definition manifest_entry :: "json \<Rightarrow> (string \<times> string \<times> string) option" where
  "manifest_entry ver =
     (case (ebind (json_access ver ''id'') GetString,
            ebind (json_access ver ''url'') GetString,
            ebind (json_access ver ''sha1'') GetString) of
        (Inr ver_id, Inr ver_url, Inr ver_hash) \<Rightarrow> Some (ver_id, ver_url, ver_hash)
      | _ \<Rightarrow> None)"

text \<open>
  A rule vetoes a library when, taken alone, it sets \<open>rule_fail\<close>; it is readable when
  the loop body gets through it without an error.
\<close>

definition rule_vetoes :: "env \<Rightarrow> json \<Rightarrow> bool" where
  "rule_vetoes e rule = (library_rule e rule False = Inr True)"

definition rule_readable :: "env \<Rightarrow> json \<Rightarrow> bool" where
  "rule_readable e rule = (case library_rule e rule False of Inl x \<Rightarrow> False | Inr b \<Rightarrow> True)"

text \<open>The destination of a library, as lines 88 to 95 compute it.\<close>

definition library_destination :: "path \<Rightarrow> path \<Rightarrow> json \<Rightarrow> error + path" where
  "library_destination libraries_path natives_path lib_val =
     ebind (library_fields lib_val) (\<lambda>(lib, download_artifact, name, path_str, has_natives).
       Inr (if has_natives then path_join natives_path path_str
            else path_join libraries_path path_str))"

text \<open>
  A cache \<open>w2\<close> is populated from \<open>w\<close> by a list of download tasks when every task's
  destination is a file of \<open>w2\<close> and no file of \<open>w\<close> is missing in \<open>w2\<close>.
\<close>

definition populated :: "world \<Rightarrow> DownloadHelper list \<Rightarrow> world \<Rightarrow> bool" where
  "populated w tasks w2 =
     (list_all (\<lambda>h. file_exists (h_path h) w2) tasks \<and> dom (files w) \<subseteq> dom (files w2))"

text \<open>
  The cached download of the asset index is stable when the contents it returns do not
  depend on the state, and it removes no file.
\<close>

definition stable_index_cache :: "env \<Rightarrow> bool" where
  "stable_index_cache e =
     (\<forall>u p b x y.
        fst (download_cached_file e u p b x) = fst (download_cached_file e u p b y)
      \<and> dom (files x) \<subseteq> dom (files (snd (download_cached_file e u p b x))))"

text \<open>What \<open>write_flags\<close> appends to the command for a list of flags.\<close>

definition written :: "string list \<Rightarrow> string" where
  "written fs = concat (map (\<lambda>f. CHR '' '' # f) fs)"

definition dollar_free :: "string list \<Rightarrow> bool" where
  "dollar_free fs = list_all (\<lambda>f. CHR ''$'' \<notin> set f) fs"

text \<open>
  A literal in which a placeholder occurs between the given pieces: \<open>join_with sep\<close>
  puts \<open>sep\<close> between each two neighbours of a list of strings.
\<close>

fun join_with :: "string \<Rightarrow> string list \<Rightarrow> string" where
  "join_with sep [] = []"
| "join_with sep [s] = s"
| "join_with sep (s # t # ss) = s @ sep @ join_with sep (t # ss)"

text \<open>The placeholders that the game phase compares a literal with (lines 38 to 59).\<close>

definition auth_placeholders :: "string list" where
  "auth_placeholders = [''${auth_player_name}'', ''${auth_access_token}'', ''${auth_uuid}'']"

definition game_placeholders :: "string list" where
  "game_placeholders =
     [''${version_name}'', ''${version_type}'', ''${game_directory}'', ''${assets_root}'',
      ''${assets_index_name}''] @ auth_placeholders @ [''${user_type}'']"

section \<open>Example inputs\<close>

definition example_hash :: string where
  "example_hash = ''0123456789abcdef0123456789abcdef01234567''"

definition example_versions :: "json list" where
  "example_versions =
     [JObject [(''id'', JString ''1.18''), (''type'', JString ''release''),
               (''url'', JString ''https://example.org/1.18.json''),
               (''sha1'', JString ''89abcdef0123456789abcdef0123456789abcdef'')],
      JObject [(''id'', JString ''1.19''), (''type'', JString ''release''),
               (''url'', JString ''https://example.org/1.19.json''),
               (''sha1'', JString example_hash)]]"

definition example_manifest :: json where
  "example_manifest =
     JObject
       [(''latest'', JObject [(''release'', JString ''1.19'')]),
        (''versions'', JArray example_versions)]"

text \<open>A manifest whose only entry has the id asked for and an empty url.\<close>

definition empty_url_versions :: "json list" where
  "empty_url_versions =
     [JObject [(''id'', JString ''1.19''), (''type'', JString ''release''),
               (''url'', JString []), (''sha1'', JString example_hash)]]"

definition empty_url_manifest :: json where
  "empty_url_manifest = JObject [(''versions'', JArray empty_url_versions)]"

text \<open>
  A manifest whose first entry has an id and nothing else, and whose second entry has an
  id with a NUL after the version asked for.
\<close>

definition partial_versions :: "json list" where
  "partial_versions =
     [JObject [(''id'', JString ''1.18'')],
      JObject [(''id'', JString (''1.19'' @ [CHR 0x00, CHR ''x''])),
               (''url'', JString ''https://example.org/1.19.json''),
               (''sha1'', JString example_hash)]]"

definition partial_manifest :: json where
  "partial_manifest = JObject [(''versions'', JArray partial_versions)]"

definition os_rule :: "string \<Rightarrow> string \<Rightarrow> json" where
  "os_rule action n =
     JObject [(''action'', JString action), (''os'', JObject [(''name'', JString n)])]"

definition logging_library :: json where
  "logging_library =
     JObject
       [(''name'', JString ''com.mojang:logging:1.0.0''),
        (''downloads'', JObject [(''artifact'', JObject
           [(''path'', JString ''com/mojang/logging/1.0.0/logging-1.0.0.jar''),
            (''url'', JString ''https://libraries.example.org/logging-1.0.0.jar'')])])]"

definition osx_library :: json where
  "osx_library =
     JObject
       [(''name'', JString ''ca.weblite:java-objc-bridge:1.1''),
        (''downloads'', JObject [(''artifact'', JObject
           [(''path'', JString ''ca/weblite/java-objc-bridge-1.1.jar''),
            (''url'', JString ''https://libraries.example.org/java-objc-bridge-1.1.jar'')])]),
        (''rules'', JArray [os_rule ''allow'' ''osx''])]"

text \<open>
  A rule that allows an OS whose name is the name of the running OS of the example, a NUL
  and one more character; and a library with this rule only.
\<close>

definition nul_rule :: json where
  "nul_rule = os_rule ''allow'' (''linux'' @ [CHR 0x00, CHR ''x''])"

definition nul_rule_library :: json where
  "nul_rule_library =
     JObject
       [(''name'', JString ''com.example:tools:1.0''),
        (''downloads'', JObject [(''artifact'', JObject
           [(''path'', JString ''com/example/tools-1.0.jar''),
            (''url'', JString ''https://libraries.example.org/tools-1.0.jar'')])]),
        (''rules'', JArray [nul_rule])]"

text \<open>A native library that its rules exclude on linux.\<close>

definition excluded_native_library :: json where
  "excluded_native_library =
     JObject
       [(''name'', JString ''org.lwjgl:lwjgl-platform:2.9.4''),
        (''downloads'', JObject [(''artifact'', JObject
           [(''path'', JString ''org/lwjgl/lwjgl-platform-2.9.4.jar''),
            (''url'', JString ''https://libraries.example.org/lwjgl-platform-2.9.4.jar'')])]),
        (''natives'', JObject [(''windows'', JString ''natives-windows'')]),
        (''rules'', JArray
           [JObject [(''action'', JString ''allow'')], os_rule ''disallow'' ''linux''])]"

definition example_game_args :: "json list" where
  "example_game_args =
     [JString ''--username'', JString ''${auth_player_name}'',
      JString ''--version'', JString ''${version_name}'',
      JObject [(''rules'', JArray
                 [JObject [(''action'', JString ''allow''),
                           (''features'', JObject [(''is_demo_user'', JBool True)])]]),
               (''value'', JString ''--demo'')]]"

definition example_descriptor :: json where
  "example_descriptor =
     JObject
       [(''libraries'', JArray [logging_library, osx_library, excluded_native_library]),
        (''assetIndex'', JObject [(''url'', JString ''https://example.org/index.json'')]),
        (''arguments'', JObject
           [(''game'', JArray example_game_args),
            (''jvm'', JArray
              [JString ''-Djava.library.path=${natives_directory}'',
               JString ''-cp'', JString ''${classpath}'',
               JObject [(''rules'', JArray
                          [JObject [(''action'', JString ''allow''),
                                    (''os'', JObject [(''name'', JString ''osx'')])]]),
                        (''value'', JString ''-XstartOnFirstThread'')]])]),
        (''mainClass'', JString ''net.minecraft.client.main.Main'')]"

definition example_index :: json where
  "example_index =
     JObject
       [(''objects'', JObject
          [(''icons/icon_16x16.png'',
            JObject [(''hash'', JString example_hash), (''size'', JNumber 3665)])])]"

definition example_env :: env where
  "example_env =
     \<lparr>internal_dir = ''/home/steve/.mcvm'',
      ASSETS_DIR = ''assets'',
      VERSION_MANIFEST_URL = ''https://example.org/version_manifest.json'',
      OS_STRING = ''linux'',
      ARCH_STRING = ''x86_64'',
      mc_version_reverse_map = (\<lambda>n. if n = 0 then Some ''1.19'' else None),
      is_allowed = (\<lambda>action. action = ''allow''),
      remote = (\<lambda>u. if u = ''https://example.org/version_manifest.json'' then ''manifest''
                     else if u = ''https://example.org/1.19.json'' then ''descriptor''
                     else ''body''),
      json_parse = (\<lambda>s. if s = ''manifest'' then example_manifest
                         else if s = ''descriptor'' then example_descriptor
                         else if s = ''index'' then example_index
                         else JNull),
      sha1 = (\<lambda>s. if s = ''descriptor'' then example_hash else []),
      download_cached_file = (\<lambda>u p b w. (''index'', w)),
      zip_open = (\<lambda>p w. case files w p of
                           None \<Rightarrow> None
                         | Some body \<Rightarrow> Some [Some ''liblwjgl.so'', None, Some ''libopenal.so''])\<rparr>"

definition empty_url_env :: env where
  "empty_url_env = example_env\<lparr>json_parse := (\<lambda>s. empty_url_manifest)\<rparr>"

definition partial_env :: env where
  "partial_env = example_env\<lparr>json_parse := (\<lambda>s. partial_manifest)\<rparr>"

text \<open>The same remote side, answering the descriptor's url with another body.\<close>

definition corrupt_env :: env where
  "corrupt_env =
     example_env\<lparr>remote := (\<lambda>u. if u = ''https://example.org/version_manifest.json''
                                then ''manifest'' else ''corrupted'')\<rparr>"

definition empty_world :: world where
  "empty_world = \<lparr>files = Map.empty, dirs = {}, requests = [], console = []\<rparr>"

text \<open>
  The two download tasks of the example on an empty cache, the native archive it names,
  and the cache after these downloads and the installation of the natives.
\<close>

definition logging_task :: DownloadHelper where
  "logging_task =
     \<lparr>h_mode = FILE, h_url = ''https://libraries.example.org/logging-1.0.0.jar'',
      h_path = ''/home/steve/.mcvm/libraries/com/mojang/logging/1.0.0/logging-1.0.0.jar'',
      h_str = []\<rparr>"

definition asset_task :: DownloadHelper where
  "asset_task =
     \<lparr>h_mode = FILE,
      h_url = ''http://resources.download.minecraft.net/01/0123456789abcdef0123456789abcdef01234567'',
      h_path = ''/home/steve/.mcvm/assets/objects/01/0123456789abcdef0123456789abcdef01234567'',
      h_str = []\<rparr>"

definition example_natives :: "path list" where
  "example_natives =
     [''/home/steve/.mcvm/versions/1.19/natives/org/lwjgl/lwjgl-platform-2.9.4.jar'']"

definition example_cache :: world where
  "example_cache =
     install_natives example_env example_natives
       (perform_blocking example_env [logging_task, asset_task] empty_world)"

definition example_paths :: CachedPaths where
  "example_paths = \<lparr>internal = ''/home/steve/.mcvm'', assets = ''/home/steve/.mcvm/assets''\<rparr>"

definition example_runner :: "bool \<Rightarrow> GameRunner" where
  "example_runner offline =
     \<lparr>version = 0, mc_dir = ''/home/steve/.mcvm/instances/main/.minecraft'',
      jar_path = ''/home/steve/.mcvm/instances/main/client.jar'',
      user = \<lparr>is_offline = offline, is_demo = False\<rparr>,
      classpath = ''a.jar:b.jar'', output = ''java'', flags = []\<rparr>"

text \<open>The command that the example's arguments give for an offline user.\<close>

definition example_command :: string where
  "example_command =
     ''java -Djava.library.path=/home/steve/.mcvm/versions/1.19/natives -cp ''
     @ CHR 0x22 # ''a.jar:b.jar'' @ CHR 0x22
     # '' -Dorg.lwjgl.util.DebugLoader=true net.minecraft.client.main.Main --version 1.19''"

section \<open>Basic facts\<close>

lemma files_unchanged [simp]:
  "files (create_leading_directories p w) = files w"
  "files (create_dir_if_not_exists p w) = files w"
  "files (OUT l w) = files w"
  by (simp_all add: create_leading_directories_def create_dir_if_not_exists_def OUT_def)

lemma file_exists_unchanged [simp]:
  "file_exists q (create_leading_directories p w) = file_exists q w"
  "file_exists q (create_dir_if_not_exists p w) = file_exists q w"
  "file_exists q (OUT l w) = file_exists q w"
  by (simp_all add: file_exists_def)

lemma requests_unchanged [simp]:
  "requests (create_leading_directories p w) = requests w"
  "requests (create_dir_if_not_exists p w) = requests w"
  "requests (OUT l w) = requests w"
  by (simp_all add: create_leading_directories_def create_dir_if_not_exists_def OUT_def)

lemma c_str_id: "CHR 0x00 \<notin> set s \<Longrightarrow> c_str s = s"
  by (auto simp: c_str_def)

lemma ebind_Inr: "ebind m f = Inr y \<longleftrightarrow> (\<exists>x. m = Inr x \<and> f x = Inr y)"
  by (cases m) (simp_all add: ebind_def)

lemma file_exists_files: "files w1 = files w \<Longrightarrow> file_exists p w1 = file_exists p w"
  by (simp add: file_exists_def)

lemma path_join_assets:
  "path_join d ''assets'' \<noteq> [] \<and> last (path_join d ''assets'') \<noteq> CHR ''/''"
  by (simp add: path_join_def)

section \<open>ManifestResolver: the scan of the manifest\<close>

lemma manifest_entry_object: "manifest_entry ver = Some x \<Longrightarrow> GetObject ver = Inr ver"
  by (cases ver) (auto simp: manifest_entry_def json_access_def GetObject_def ebind_def)

lemma manifest_entry_fields:
  "manifest_entry ver = Some (i, u, h) \<Longrightarrow>
     ebind (json_access ver ''id'') GetString = Inr i \<and>
     ebind (json_access ver ''url'') GetString = Inr u \<and>
     ebind (json_access ver ''sha1'') GetString = Inr h"
  by (auto simp: manifest_entry_def split: sum.splits)

lemma find_version_skip:
  "list_all (other_id v) pre \<Longrightarrow> find_version v (pre @ rest) = find_version v rest"
proof (induction pre)
  case Nil
  then show ?case by simp
next
  case (Cons ver pre)
  from Cons.prems obtain ver_id where "entry_id ver = Inr ver_id" and "ver_id \<noteq> v"
    by (auto simp: other_id_def split: sum.splits)
  then obtain ver_obj where "GetObject ver = Inr ver_obj"
    and "ebind (json_access ver_obj ''id'') GetString = Inr ver_id"
    by (auto simp: entry_id_def ebind_Inr)
  with \<open>ver_id \<noteq> v\<close> Cons show ?case by simp
qed

lemma find_version_hit:
  assumes "manifest_entry ver = Some (v, u, h)" and "length h = 40"
  shows "find_version v (ver # post) = Inr (u, h)"
  using manifest_entry_fields [OF assms(1)] manifest_entry_object [OF assms(1)] assms(2)
  by (simp add: ebind_def)

lemma find_version_found:
  "find_version v vers = Inr (u, h) \<Longrightarrow> u \<noteq> [] \<Longrightarrow> length h = 40"
  by (induction vers) (auto simp: ebind_def split: sum.splits if_splits)

lemma obtain_version_json_found:
  assumes "ebind (ebind (json_access (json_parse e (remote e (VERSION_MANIFEST_URL e))) ''versions'')
             GetArray) (find_version v) = Inr (u, h)"
    and "u \<noteq> []"
  shows "obtain_version_json e v w =
     (let index_file_path = path_join (path_join (internal_dir e) (ASSETS_DIR e)) (v @ ''.json'');
          w2 = snd (get_version_manifest e (OUT ''Downloading version json...'' w));
          helper' = \<lparr>h_mode = FILE_AND_STR, h_url = u, h_path = index_file_path,
                      h_str = remote e u\<rparr>;
          w3 = w2\<lparr>files := (files w2)(index_file_path \<mapsto> remote e u),
                   requests := requests w2 @ [u]\<rparr>
      in (if sha1 e (remote e u) = h then Inr (helper', json_parse e (remote e u))
          else Inl IntegrityError, w3))"
  using assms
  by (simp add: obtain_version_json_def get_version_manifest_def perform_def set_options_def
      new_helper_def get_str_def sha1_checksum_def Let_def)

lemma obtain_version_json_missing:
  assumes "ebind (ebind (json_access (json_parse e (remote e (VERSION_MANIFEST_URL e))) ''versions'')
             GetArray) (find_version v) = Inr ([], h)"
  shows "obtain_version_json e v w =
     (Inl VersionNotFoundException, snd (get_version_manifest e (OUT ''Downloading version json...'' w)))"
  using assms
  by (simp add: obtain_version_json_def get_version_manifest_def perform_def set_options_def
      new_helper_def get_str_def Let_def)

lemma get_version_manifest_requests:
  "requests (snd (get_version_manifest e w)) = requests w @ [VERSION_MANIFEST_URL e]"
  by (simp add: get_version_manifest_def perform_def set_options_def new_helper_def Let_def)

text \<open>
  C1, as amended. Let the manifest that is downloaded have a versions array. If an entry
  of it reads as \<open>(v, url, sha1)\<close> for the requested id \<open>v\<close>, with a url that is not empty and
  a sha1 of 40 characters, and every entry before it has a readable id other than \<open>v\<close>,
  then the scan returns that url and sha1 and the function goes on: it does not throw
  \<open>VersionNotFoundException\<close>, and it requests the manifest and then the descriptor at that
  url. If every entry has a readable id other than \<open>v\<close>, the function throws
  \<open>VersionNotFoundException\<close> after having requested the manifest only. The ids, the
  url and the sha1 are read as C strings; of the entries passed over, nothing but the id
  is read.
\<close>

theorem obtain_version_json_resolves:
  assumes "ebind (json_access (json_parse e (remote e (VERSION_MANIFEST_URL e))) ''versions'')
             GetArray = Inr vers"
  shows "(vers = pre @ ver # post \<and> list_all (other_id v) pre
            \<and> manifest_entry ver = Some (v, u, h) \<and> u \<noteq> [] \<and> length h = 40 \<longrightarrow>
            find_version v vers = Inr (u, h)
          \<and> fst (obtain_version_json e v w) \<noteq> Inl VersionNotFoundException
          \<and> requests (snd (obtain_version_json e v w))
              = requests w @ [VERSION_MANIFEST_URL e, u])
       \<and> (list_all (other_id v) vers \<longrightarrow>
            fst (obtain_version_json e v w) = Inl VersionNotFoundException
          \<and> requests (snd (obtain_version_json e v w)) = requests w @ [VERSION_MANIFEST_URL e])"
proof (intro conjI impI)
  assume a: "vers = pre @ ver # post \<and> list_all (other_id v) pre
            \<and> manifest_entry ver = Some (v, u, h) \<and> u \<noteq> [] \<and> length h = 40"
  then have "find_version v vers = find_version v (ver # post)"
    by (simp add: find_version_skip del: find_version.simps)
  with a find_version_hit [of ver v u h post] show fv: "find_version v vers = Inr (u, h)"
    by simp
  with assms have "ebind (ebind (json_access (json_parse e (remote e (VERSION_MANIFEST_URL e)))
      ''versions'') GetArray) (find_version v) = Inr (u, h)"
    by (simp add: ebind_def)
  note r = obtain_version_json_found [OF this, of w]
  from a r show "fst (obtain_version_json e v w) \<noteq> Inl VersionNotFoundException"
    by (simp add: Let_def)
  from a r show "requests (snd (obtain_version_json e v w))
                   = requests w @ [VERSION_MANIFEST_URL e, u]"
    by (simp add: Let_def get_version_manifest_requests)
next
  assume "list_all (other_id v) vers"
  from find_version_skip [OF this, of "[]"] have "find_version v vers = Inr ([], [])"
    by simp
  with assms have "ebind (ebind (json_access (json_parse e (remote e (VERSION_MANIFEST_URL e)))
      ''versions'') GetArray) (find_version v) = Inr ([], [])"
    by (simp add: ebind_def)
  note r = obtain_version_json_missing [OF this, of w]
  from r show "fst (obtain_version_json e v w) = Inl VersionNotFoundException" by simp
  from r show "requests (snd (obtain_version_json e v w)) = requests w @ [VERSION_MANIFEST_URL e]"
    by (simp add: get_version_manifest_requests)
qed

theorem obtain_version_json_resolves_witness:
  "find_version ''1.19'' example_versions = Inr (''https://example.org/1.19.json'', example_hash)
   \<and> fst (obtain_version_json example_env ''1.19'' empty_world) \<noteq> Inl VersionNotFoundException
   \<and> requests (snd (obtain_version_json example_env ''1.19'' empty_world))
       = [''https://example.org/version_manifest.json'', ''https://example.org/1.19.json'']
   \<and> fst (obtain_version_json example_env ''1.20'' empty_world) = Inl VersionNotFoundException
   \<and> requests (snd (obtain_version_json example_env ''1.20'' empty_world))
       = [''https://example.org/version_manifest.json'']
   \<and> manifest_entry (partial_versions ! 0) = None
   \<and> find_version ''1.19'' partial_versions = Inr (''https://example.org/1.19.json'', example_hash)
   \<and> fst (obtain_version_json partial_env ''1.19'' empty_world) \<noteq> Inl VersionNotFoundException
   \<and> requests (snd (obtain_version_json partial_env ''1.19'' empty_world))
       = [''https://example.org/version_manifest.json'', ''https://example.org/1.19.json'']"
proof -
  have a1: "ebind (json_access (json_parse example_env
               (remote example_env (VERSION_MANIFEST_URL example_env))) ''versions'') GetArray
            = Inr example_versions"
    by (simp add: example_env_def example_manifest_def json_access_def ebind_def GetArray_def)
  have a2: "example_versions = [example_versions ! 0] @ example_versions ! 1 # []"
    by (simp add: example_versions_def)
  have a3: "other_id v (example_versions ! 0) = (v \<noteq> ''1.18'')"
    "other_id v (example_versions ! 1) = (v \<noteq> ''1.19'')" for v
    by (auto simp: example_versions_def other_id_def entry_id_def json_access_def GetObject_def
        GetString_def c_str_def ebind_def)
  have a4: "manifest_entry (example_versions ! 1)
            = Some (''1.19'', ''https://example.org/1.19.json'', example_hash)"
    by (simp add: example_versions_def manifest_entry_def json_access_def GetString_def
        c_str_def example_hash_def ebind_def)
  have a5: "list_all (other_id ''1.20'') example_versions"
    using a3 [of "''1.20''"] by (subst a2) simp
  have b1: "ebind (json_access (json_parse partial_env
               (remote partial_env (VERSION_MANIFEST_URL partial_env))) ''versions'') GetArray
            = Inr partial_versions"
    by (simp add: partial_env_def example_env_def partial_manifest_def json_access_def ebind_def
        GetArray_def)
  have b2: "partial_versions = [partial_versions ! 0] @ partial_versions ! 1 # []"
    by (simp add: partial_versions_def)
  have b3: "other_id ''1.19'' (partial_versions ! 0)"
    by (simp add: partial_versions_def other_id_def entry_id_def json_access_def GetObject_def
        GetString_def c_str_def ebind_def)
  have b4: "manifest_entry (partial_versions ! 1)
            = Some (''1.19'', ''https://example.org/1.19.json'', example_hash)"
    by (simp add: partial_versions_def manifest_entry_def json_access_def GetString_def
        c_str_def example_hash_def ebind_def)
  have b5: "manifest_entry (partial_versions ! 0) = None"
    by (simp add: partial_versions_def manifest_entry_def json_access_def GetString_def
        c_str_def ebind_def)
  have len: "length example_hash = 40" by (simp add: example_hash_def)
  note found = obtain_version_json_resolves [OF a1, THEN conjunct1, rule_format,
      of "[example_versions ! 0]" "example_versions ! 1" "[]" "''1.19''"
         "''https://example.org/1.19.json''" example_hash empty_world]
  note missing = obtain_version_json_resolves [OF a1, THEN conjunct2, rule_format,
      of "''1.20''" empty_world, OF a5]
  note cut = obtain_version_json_resolves [OF b1, THEN conjunct1, rule_format,
      of "[partial_versions ! 0]" "partial_versions ! 1" "[]" "''1.19''"
         "''https://example.org/1.19.json''" example_hash empty_world]
  have "find_version ''1.19'' example_versions = Inr (''https://example.org/1.19.json'', example_hash)
   \<and> fst (obtain_version_json example_env ''1.19'' empty_world) \<noteq> Inl VersionNotFoundException
   \<and> requests (snd (obtain_version_json example_env ''1.19'' empty_world))
       = requests empty_world @ [VERSION_MANIFEST_URL example_env, ''https://example.org/1.19.json'']"
    using a2 a3 [of "''1.19''"] a4 len by (intro found) simp
  moreover have "find_version ''1.19'' partial_versions
       = Inr (''https://example.org/1.19.json'', example_hash)
   \<and> fst (obtain_version_json partial_env ''1.19'' empty_world) \<noteq> Inl VersionNotFoundException
   \<and> requests (snd (obtain_version_json partial_env ''1.19'' empty_world))
       = requests empty_world @ [VERSION_MANIFEST_URL partial_env, ''https://example.org/1.19.json'']"
    using b2 b3 b4 len by (intro cut) simp
  ultimately show ?thesis
    using missing b5 by (simp add: example_env_def partial_env_def empty_world_def)
qed

theorem obtain_version_json_empty_url_counterexample:
  "ebind (json_access (json_parse empty_url_env
      (remote empty_url_env (VERSION_MANIFEST_URL empty_url_env))) ''versions'') GetArray
     = Inr empty_url_versions
   \<and> map manifest_entry empty_url_versions = [Some (''1.19'', [], example_hash)]
   \<and> length example_hash = 40
   \<and> fst (obtain_version_json empty_url_env ''1.19'' empty_world) = Inl VersionNotFoundException"
  by (simp add: empty_url_env_def example_env_def empty_url_manifest_def empty_url_versions_def
      example_hash_def empty_world_def manifest_entry_def json_access_def GetString_def c_str_def
      GetArray_def GetObject_def ebind_def obtain_version_json_def get_version_manifest_def
      perform_def set_options_def new_helper_def get_str_def OUT_def create_dir_if_not_exists_def
      Let_def)

section \<open>VersionDescriptorFetcher: the checksum of the descriptor\<close>

lemma obtain_version_json_success:
  assumes "obtain_version_json e v w = (Inr (helper, ret), w')"
  shows "\<exists>vers u h.
           ebind (json_access (json_parse e (remote e (VERSION_MANIFEST_URL e))) ''versions'')
             GetArray = Inr vers
         \<and> find_version v vers = Inr (u, h) \<and> u \<noteq> []"
proof -
  let ?doc = "json_parse e (remote e (VERSION_MANIFEST_URL e))"
  from assms obtain u h where
    f: "ebind (ebind (json_access ?doc ''versions'') GetArray) (find_version v) = Inr (u, h)"
    and u: "u \<noteq> []"
    by (auto simp: obtain_version_json_def get_version_manifest_def perform_def set_options_def
        new_helper_def get_str_def Let_def split: sum.splits if_splits prod.splits)
  from f obtain vers where "ebind (json_access ?doc ''versions'') GetArray = Inr vers"
    and "find_version v vers = Inr (u, h)"
    by (auto simp: ebind_def [of _ "find_version v"] split: sum.splits)
  with u show ?thesis by blast
qed

text \<open>
  C6. Whenever \<open>obtain_version_json\<close> returns a descriptor, the manifest had an entry for
  the version with a sha1 of 40 characters, the SHA-1 of the downloaded body equals that
  sha1, and the document returned is the parse of that very body. When the SHA-1 of the
  body differs from the entry's sha1, the function fails with \<open>IntegrityError\<close>, so nothing
  is parsed or returned.
\<close>

theorem obtain_version_json_checksum:
  "(obtain_version_json e v w = (Inr (helper, ret), w') \<longrightarrow>
      (\<exists>vers u h.
          ebind (json_access (json_parse e (remote e (VERSION_MANIFEST_URL e))) ''versions'')
            GetArray = Inr vers
        \<and> find_version v vers = Inr (u, h) \<and> length h = 40
        \<and> sha1 e (remote e u) = h
        \<and> get_str helper = remote e u \<and> ret = json_parse e (remote e u)))
   \<and> (ebind (json_access (json_parse e (remote e (VERSION_MANIFEST_URL e))) ''versions'')
         GetArray = Inr vers0
       \<and> find_version v vers0 = Inr (u0, h0) \<and> u0 \<noteq> [] \<and> sha1 e (remote e u0) \<noteq> h0 \<longrightarrow>
         fst (obtain_version_json e v w) = Inl IntegrityError)"
proof (intro conjI impI)
  assume a: "obtain_version_json e v w = (Inr (helper, ret), w')"
  from obtain_version_json_success [OF a] obtain vers u h where
    vers: "ebind (json_access (json_parse e (remote e (VERSION_MANIFEST_URL e))) ''versions'')
             GetArray = Inr vers"
    and fv: "find_version v vers = Inr (u, h)" and u: "u \<noteq> []"
    by blast
  from vers fv have "ebind (ebind (json_access (json_parse e (remote e (VERSION_MANIFEST_URL e)))
      ''versions'') GetArray) (find_version v) = Inr (u, h)"
    by (simp add: ebind_def)
  from obtain_version_json_found [OF this u, of w] a
  have "sha1 e (remote e u) = h \<and> get_str helper = remote e u \<and> ret = json_parse e (remote e u)"
    by (auto simp: Let_def get_str_def split: if_splits)
  with vers fv find_version_found [OF fv u]
  show "\<exists>vers u h.
          ebind (json_access (json_parse e (remote e (VERSION_MANIFEST_URL e))) ''versions'')
            GetArray = Inr vers
        \<and> find_version v vers = Inr (u, h) \<and> length h = 40
        \<and> sha1 e (remote e u) = h
        \<and> get_str helper = remote e u \<and> ret = json_parse e (remote e u)"
    by blast
next
  assume b: "ebind (json_access (json_parse e (remote e (VERSION_MANIFEST_URL e))) ''versions'')
         GetArray = Inr vers0
       \<and> find_version v vers0 = Inr (u0, h0) \<and> u0 \<noteq> [] \<and> sha1 e (remote e u0) \<noteq> h0"
  then have "ebind (ebind (json_access (json_parse e (remote e (VERSION_MANIFEST_URL e)))
      ''versions'') GetArray) (find_version v) = Inr (u0, h0)"
    by (simp add: ebind_def)
  from obtain_version_json_found [OF this, of w] b
  show "fst (obtain_version_json e v w) = Inl IntegrityError"
    by (simp add: Let_def)
qed

theorem obtain_version_json_checksum_witness:
  "(\<exists>vers u h.
       ebind (json_access (json_parse example_env
          (remote example_env (VERSION_MANIFEST_URL example_env))) ''versions'') GetArray = Inr vers
     \<and> find_version ''1.19'' vers = Inr (u, h) \<and> length h = 40
     \<and> sha1 example_env (remote example_env u) = h
     \<and> example_descriptor = json_parse example_env (remote example_env u))
   \<and> sha1 corrupt_env (remote corrupt_env ''https://example.org/1.19.json'') \<noteq> example_hash
   \<and> fst (obtain_version_json corrupt_env ''1.19'' empty_world) = Inl IntegrityError"
proof -
  define helper where "helper = \<lparr>h_mode = FILE_AND_STR, h_url = ''https://example.org/1.19.json'',
     h_path = ''/home/steve/.mcvm/assets/1.19.json'', h_str = ''descriptor''\<rparr>"
  have run: "obtain_version_json example_env ''1.19'' empty_world
        = (Inr (helper, example_descriptor), snd (obtain_version_json example_env ''1.19'' empty_world))"
    by (simp add: helper_def example_env_def example_manifest_def example_versions_def
      example_hash_def empty_world_def json_access_def GetString_def c_str_def
      GetArray_def GetObject_def ebind_def obtain_version_json_def get_version_manifest_def
      perform_def set_options_def new_helper_def get_str_def OUT_def create_dir_if_not_exists_def
      sha1_checksum_def path_join_def Let_def)
  have vers: "ebind (json_access (json_parse corrupt_env
               (remote corrupt_env (VERSION_MANIFEST_URL corrupt_env))) ''versions'') GetArray
            = Inr example_versions"
    by (simp add: corrupt_env_def example_env_def example_manifest_def json_access_def ebind_def
        GetArray_def)
  have fv: "find_version ''1.19'' example_versions
        = Inr (''https://example.org/1.19.json'', example_hash)"
    by (simp add: example_versions_def example_hash_def json_access_def GetString_def c_str_def
        GetObject_def ebind_def)
  have ne: "sha1 corrupt_env (remote corrupt_env ''https://example.org/1.19.json'') \<noteq> example_hash"
    by (simp add: corrupt_env_def example_env_def example_hash_def)
  note found = obtain_version_json_checksum [of example_env "''1.19''" empty_world helper
      example_descriptor "snd (obtain_version_json example_env ''1.19'' empty_world)",
      THEN conjunct1, rule_format, OF run]
  note mismatch = obtain_version_json_checksum [of corrupt_env "''1.19''" empty_world _ _ _
      example_versions "''https://example.org/1.19.json''" example_hash,
      THEN conjunct2, rule_format]
  have "fst (obtain_version_json corrupt_env ''1.19'' empty_world) = Inl IntegrityError"
    using vers fv ne by (intro mismatch) simp
  with found ne show ?thesis by blast
qed

section \<open>RuleEvaluator: the rules of a library\<close>

lemma library_rule_acc:
  "library_rule e rule rule_fail =
     (case library_rule e rule False of Inl x \<Rightarrow> Inl x | Inr b \<Rightarrow> Inr (b \<or> rule_fail))"
  by (auto simp: library_rule_def ebind_def split: sum.splits)

lemma library_rules_any:
  "list_all (rule_readable e) rules \<Longrightarrow>
   library_rules e rules rule_fail = Inr (rule_fail \<or> list_ex (rule_vetoes e) rules)"
proof (induction rules arbitrary: rule_fail)
  case Nil
  then show ?case by simp
next
  case (Cons rule rules)
  from Cons.prems obtain b where b: "library_rule e rule False = Inr b"
    by (auto simp: rule_readable_def split: sum.splits)
  from Cons.prems have rest: "list_all (rule_readable e) rules" by simp
  have "library_rule e rule rule_fail = Inr (b \<or> rule_fail)"
    by (subst library_rule_acc) (simp add: b)
  then show ?case
    using Cons.IH [OF rest, of "b \<or> rule_fail"] b by (auto simp: rule_vetoes_def)
qed

lemma json_subscript_HasMember: "json_subscript v k = Inr x \<Longrightarrow> HasMember v k = Inr True"
  by (cases v) (auto simp: json_subscript_def HasMember_def split: option.splits)

lemma library_rule_allow:
  "json_access rule ''action'' = Inr (JString a) \<Longrightarrow> c_str a = ''allow'' \<Longrightarrow>
   json_subscript rule ''os'' = Inr os \<Longrightarrow> json_access os ''name'' = Inr (JString n) \<Longrightarrow>
   library_rule e rule False = Inr (c_str n \<noteq> c_str (OS_STRING e))"
  by (simp add: library_rule_def ebind_def GetString_def json_subscript_HasMember)

lemma library_rule_disallow:
  "json_access rule ''action'' = Inr (JString a) \<Longrightarrow> c_str a = ''disallow'' \<Longrightarrow>
   json_subscript rule ''os'' = Inr os \<Longrightarrow> json_access os ''name'' = Inr (JString n) \<Longrightarrow>
   library_rule e rule False = Inr (c_str n = c_str (OS_STRING e))"
  by (simp add: library_rule_def ebind_def GetString_def json_subscript_HasMember)

lemma library_rule_no_os:
  "json_access rule ''action'' = Inr (JString action) \<Longrightarrow> HasMember rule ''os'' = Inr False \<Longrightarrow>
   library_rule e rule False = Inr False"
  by (simp add: library_rule_def ebind_def GetString_def)

lemma obtain_library_rules:
  assumes "library_fields lib_val = Inr (lib, download_artifact, name, path_str, has_natives)"
    and "json_subscript lib ''rules'' = Inr (JArray rules)"
    and "list_all (rule_readable e) rules"
    and "library_destination lp np lib_val = Inr p"
    and "\<not> file_exists p w"
    and "ebind (json_access download_artifact ''url'') GetString = Inr u"
  shows "\<exists>a'. fst (obtain_library e lp np lib_val a w) = Inr a'
           \<and> multi_helper a' =
               (if list_ex (rule_vetoes e) rules then multi_helper a
                else multi_helper a @ [set_options FILE u p new_helper])"
proof -
  from assms(2) have "HasMember lib ''rules'' = Inr True"
    by (cases lib) (auto simp: json_subscript_def HasMember_def split: option.splits)
  with assms(2,3) have c: "check_rules e lib = Inr (list_ex (rule_vetoes e) rules)"
    by (simp add: check_rules_def ebind_def GetArray_def library_rules_any)
  from assms(1,4) have p: "p = (if has_natives then path_join np path_str else path_join lp path_str)"
    by (simp add: library_destination_def ebind_def)
  show ?thesis
    using assms(1,5,6) c p
    by (simp add: obtain_library_def Let_def add_helper_def)
qed

text \<open>
  C2, as amended. The action, the \<open>os.name\<close> condition \<open>n\<close> and the running OS are compared
  as the code reads them, as C strings (up to the first NUL). For a library rule with an
  \<open>os.name\<close> condition: with the action \<open>allow\<close> it vetoes the library exactly when the C
  string of \<open>n\<close> differs from the running OS, with the action \<open>disallow\<close> exactly when the C
  string of \<open>n\<close> is the running OS; a rule without an \<open>os\<close> member never vetoes. For every sequence of readable rules the loop ends with \<open>rule_fail\<close> set exactly
  when some rule of the sequence vetoes, so the result is the same for every sequence
  with the same rules, in any order. A library with such rules whose destination does
  not exist yet gets its download task exactly when no rule vetoes it.
\<close>

theorem library_rules_conjunctive:
  "(json_access rule ''action'' = Inr (JString act) \<and> c_str act = ''allow''
      \<and> json_subscript rule ''os'' = Inr os \<and> json_access os ''name'' = Inr (JString n) \<longrightarrow>
        rule_readable e rule \<and> rule_vetoes e rule = (c_str n \<noteq> c_str (OS_STRING e)))
   \<and> (json_access rule ''action'' = Inr (JString act) \<and> c_str act = ''disallow''
      \<and> json_subscript rule ''os'' = Inr os \<and> json_access os ''name'' = Inr (JString n) \<longrightarrow>
        rule_readable e rule \<and> rule_vetoes e rule = (c_str n = c_str (OS_STRING e)))
   \<and> (json_access rule ''action'' = Inr (JString action) \<and> HasMember rule ''os'' = Inr False \<longrightarrow>
        rule_readable e rule \<and> \<not> rule_vetoes e rule)
   \<and> (list_all (rule_readable e) rules \<longrightarrow>
        library_rules e rules False = Inr (list_ex (rule_vetoes e) rules))
   \<and> (list_all (rule_readable e) rules \<and> set rules' = set rules \<longrightarrow>
        library_rules e rules' False = library_rules e rules False)
   \<and> (library_fields lib_val = Inr (lib, download_artifact, name, path_str, has_natives)
      \<and> json_subscript lib ''rules'' = Inr (JArray rules)
      \<and> list_all (rule_readable e) rules
      \<and> library_destination lp np lib_val = Inr p \<and> \<not> file_exists p w
      \<and> ebind (json_access download_artifact ''url'') GetString = Inr u \<longrightarrow>
        (\<exists>a'. fst (obtain_library e lp np lib_val a w) = Inr a'
           \<and> multi_helper a' =
               (if list_ex (rule_vetoes e) rules then multi_helper a
                else multi_helper a @ [set_options FILE u p new_helper])))"
proof (intro conjI impI)
  assume "json_access rule ''action'' = Inr (JString act) \<and> c_str act = ''allow''
      \<and> json_subscript rule ''os'' = Inr os \<and> json_access os ''name'' = Inr (JString n)"
  then have "library_rule e rule False = Inr (c_str n \<noteq> c_str (OS_STRING e))"
    by (simp add: library_rule_allow)
  then show "rule_readable e rule" "rule_vetoes e rule = (c_str n \<noteq> c_str (OS_STRING e))"
    by (simp_all add: rule_readable_def rule_vetoes_def)
next
  assume "json_access rule ''action'' = Inr (JString act) \<and> c_str act = ''disallow''
      \<and> json_subscript rule ''os'' = Inr os \<and> json_access os ''name'' = Inr (JString n)"
  then have "library_rule e rule False = Inr (c_str n = c_str (OS_STRING e))"
    by (simp add: library_rule_disallow)
  then show "rule_readable e rule" "rule_vetoes e rule = (c_str n = c_str (OS_STRING e))"
    by (simp_all add: rule_readable_def rule_vetoes_def)
next
  assume "json_access rule ''action'' = Inr (JString action) \<and> HasMember rule ''os'' = Inr False"
  then have "library_rule e rule False = Inr False"
    by (simp add: library_rule_no_os)
  then show "rule_readable e rule" "\<not> rule_vetoes e rule"
    by (simp_all add: rule_readable_def rule_vetoes_def)
next
  assume "list_all (rule_readable e) rules"
  then show "library_rules e rules False = Inr (list_ex (rule_vetoes e) rules)"
    by (simp add: library_rules_any)
next
  assume a: "list_all (rule_readable e) rules \<and> set rules' = set rules"
  then have "list_all (rule_readable e) rules'"
    by (simp add: list_all_iff)
  with a show "library_rules e rules' False = library_rules e rules False"
    by (simp add: library_rules_any list_ex_iff)
next
  assume "library_fields lib_val = Inr (lib, download_artifact, name, path_str, has_natives)
      \<and> json_subscript lib ''rules'' = Inr (JArray rules)
      \<and> list_all (rule_readable e) rules
      \<and> library_destination lp np lib_val = Inr p \<and> \<not> file_exists p w
      \<and> ebind (json_access download_artifact ''url'') GetString = Inr u"
  then show "\<exists>a'. fst (obtain_library e lp np lib_val a w) = Inr a'
           \<and> multi_helper a' =
               (if list_ex (rule_vetoes e) rules then multi_helper a
                else multi_helper a @ [set_options FILE u p new_helper])"
    using obtain_library_rules by blast
qed

theorem library_rules_conjunctive_witness:
  "rule_vetoes example_env (os_rule ''allow'' ''osx'')
   \<and> \<not> rule_vetoes example_env (os_rule ''allow'' ''linux'')
   \<and> rule_vetoes example_env (os_rule ''disallow'' ''linux'')
   \<and> \<not> rule_vetoes example_env (os_rule ''disallow'' ''windows'')
   \<and> \<not> rule_vetoes example_env (os_rule ''allow'' (''linux'' @ [CHR 0x00, CHR ''x'']))
   \<and> rule_vetoes example_env (os_rule (''disallow'' @ [CHR 0x00]) ''linux'')
   \<and> \<not> rule_vetoes example_env (JObject [(''action'', JString ''allow'')])
   \<and> library_rules example_env
        [os_rule ''allow'' ''linux'', os_rule ''disallow'' ''linux'', os_rule ''disallow'' ''windows'']
        False = Inr True
   \<and> library_rules example_env
        [os_rule ''disallow'' ''windows'', os_rule ''allow'' ''linux'', os_rule ''disallow'' ''linux'']
        False = Inr True
   \<and> library_rules example_env [os_rule ''allow'' ''linux'', os_rule ''disallow'' ''windows'']
        False = Inr False
   \<and> (\<exists>a'. fst (obtain_library example_env ''/libraries'' ''/natives'' osx_library
                  \<lparr>multi_helper = [], native_libs = []\<rparr> empty_world) = Inr a'
          \<and> multi_helper a' = [])"
proof -
  have acc: "json_access (os_rule action n) ''action'' = Inr (JString action)"
    "json_subscript (os_rule action n) ''os'' = Inr (JObject [(''name'', JString n)])"
    "json_access (JObject [(''name'', JString n)]) ''name'' = Inr (JString n)"
    for action n
    by (simp_all add: os_rule_def json_access_def json_subscript_def)
  have os: "c_str (OS_STRING example_env) = ''linux''" by (simp add: example_env_def c_str_def)
  have cut: "c_str ''allow'' = ''allow''" "c_str ''disallow'' = ''disallow''"
    "c_str (''disallow'' @ [CHR 0x00]) = ''disallow''"
    "c_str ''linux'' = ''linux''" "c_str ''osx'' = ''osx''" "c_str ''windows'' = ''windows''"
    "c_str (''linux'' @ [CHR 0x00, CHR ''x'']) = ''linux''"
    by (simp_all add: c_str_def)
  have allow: "rule_readable example_env (os_rule ''allow'' n)
      \<and> rule_vetoes example_env (os_rule ''allow'' n) = (c_str n \<noteq> c_str (OS_STRING example_env))"
    for n
    by (rule library_rules_conjunctive [THEN conjunct1, rule_format,
          where act = "''allow''" and os = "JObject [(''name'', JString n)]"])
      (simp add: acc cut)
  have disallow: "rule_readable example_env (os_rule a n)
      \<and> rule_vetoes example_env (os_rule a n) = (c_str n = c_str (OS_STRING example_env))"
    if "c_str a = ''disallow''" for a n
    by (rule library_rules_conjunctive [THEN conjunct2, THEN conjunct1, rule_format,
          where act = a and os = "JObject [(''name'', JString n)]"])
      (simp add: acc that)
  have plain: "rule_readable example_env (JObject [(''action'', JString ''allow'')])
      \<and> \<not> rule_vetoes example_env (JObject [(''action'', JString ''allow'')])"
    by (rule library_rules_conjunctive [THEN conjunct2, THEN conjunct2, THEN conjunct1,
      rule_format, where action = "''allow''"]) (simp add: json_access_def HasMember_def)
  note loop = library_rules_conjunctive [THEN conjunct2, THEN conjunct2, THEN conjunct2,
      THEN conjunct1, rule_format, where e = example_env]
  note order = library_rules_conjunctive [THEN conjunct2, THEN conjunct2, THEN conjunct2,
      THEN conjunct2, THEN conjunct1, rule_format, where e = example_env]
  note lib = library_rules_conjunctive [THEN conjunct2, THEN conjunct2, THEN conjunct2,
      THEN conjunct2, THEN conjunct2, rule_format]
  have v: "rule_vetoes example_env (os_rule ''allow'' ''osx'')"
    "\<not> rule_vetoes example_env (os_rule ''allow'' ''linux'')"
    "rule_vetoes example_env (os_rule ''disallow'' ''linux'')"
    "\<not> rule_vetoes example_env (os_rule ''disallow'' ''windows'')"
    "\<not> rule_vetoes example_env (os_rule ''allow'' (''linux'' @ [CHR 0x00, CHR ''x'']))"
    "rule_vetoes example_env (os_rule (''disallow'' @ [CHR 0x00]) ''linux'')"
    using allow [of "''osx''"] allow [of "''linux''"]
      disallow [OF cut(2), of "''linux''"] disallow [OF cut(2), of "''windows''"]
      allow [of "''linux'' @ [CHR 0x00, CHR ''x'']"] disallow [OF cut(3), of "''linux''"]
    by (simp_all only: os cut) simp_all
  have r: "rule_readable example_env (os_rule ''allow'' n)"
    "rule_readable example_env (os_rule ''disallow'' n)" for n
    using allow [of n] disallow [OF cut(2), of n] by simp_all
  have l1: "library_rules example_env
        [os_rule ''allow'' ''linux'', os_rule ''disallow'' ''linux'', os_rule ''disallow'' ''windows'']
        False = Inr True"
    using loop [where rules = "[os_rule ''allow'' ''linux'', os_rule ''disallow'' ''linux'',
      os_rule ''disallow'' ''windows'']"]
    by (simp add: r v del: library_rules.simps)
  have l2: "library_rules example_env
        [os_rule ''disallow'' ''windows'', os_rule ''allow'' ''linux'', os_rule ''disallow'' ''linux'']
        False = Inr True"
    using order [where rules = "[os_rule ''allow'' ''linux'', os_rule ''disallow'' ''linux'',
          os_rule ''disallow'' ''windows'']" and rules' = "[os_rule ''disallow'' ''windows'',
          os_rule ''allow'' ''linux'', os_rule ''disallow'' ''linux'']"]
    by (simp add: r l1 insert_commute del: library_rules.simps)
  have l3: "library_rules example_env [os_rule ''allow'' ''linux'', os_rule ''disallow'' ''windows'']
        False = Inr False"
    using loop [where rules = "[os_rule ''allow'' ''linux'', os_rule ''disallow'' ''windows'']"]
    by (simp add: r v del: library_rules.simps)
  have l4: "\<exists>a'. fst (obtain_library example_env ''/libraries'' ''/natives'' osx_library
                  \<lparr>multi_helper = [], native_libs = []\<rparr> empty_world) = Inr a'
          \<and> multi_helper a' =
              (if list_ex (rule_vetoes example_env) [os_rule ''allow'' ''osx''] then
                 multi_helper \<lparr>multi_helper = [], native_libs = []\<rparr>
               else multi_helper \<lparr>multi_helper = [], native_libs = []\<rparr>
                 @ [set_options FILE ''https://libraries.example.org/java-objc-bridge-1.1.jar''
                     ''/libraries/ca/weblite/java-objc-bridge-1.1.jar'' new_helper])"
    by (rule lib [where lib = osx_library and download_artifact =
          "JObject [(''path'', JString ''ca/weblite/java-objc-bridge-1.1.jar''),
                    (''url'', JString ''https://libraries.example.org/java-objc-bridge-1.1.jar'')]"
          and name = "''ca.weblite:java-objc-bridge:1.1''"
          and path_str = "''ca/weblite/java-objc-bridge-1.1.jar''" and has_natives = False])
      (simp add: r osx_library_def library_fields_def library_destination_def json_access_def
        json_subscript_def GetObject_def GetString_def c_str_def HasMember_def ebind_def path_join_def
        file_exists_def empty_world_def)
  from v plain l1 l2 l3 l4 show ?thesis by simp
qed

text \<open>
  The claim as it was stated fails on a name with a NUL in it: on linux, the rule that
  allows the OS named \<open>linux\<close>, NUL, \<open>x\<close> does not veto, although this name differs from the
  running OS, and the library whose only rule it is gets its download task.
\<close>

theorem library_rules_nul_counterexample:
  "json_access nul_rule ''action'' = Inr (JString ''allow'')
   \<and> ebind (json_subscript nul_rule ''os'') (\<lambda>os. json_access os ''name'')
       = Inr (JString (''linux'' @ [CHR 0x00, CHR ''x'']))
   \<and> ''linux'' @ [CHR 0x00, CHR ''x''] \<noteq> OS_STRING example_env
   \<and> library_rule example_env nul_rule False = Inr False
   \<and> fst (obtain_library example_env ''/libraries'' ''/natives'' nul_rule_library
            \<lparr>multi_helper = [], native_libs = []\<rparr> empty_world)
       = Inr \<lparr>multi_helper =
                 [\<lparr>h_mode = FILE, h_url = ''https://libraries.example.org/tools-1.0.jar'',
                   h_path = ''/libraries/com/example/tools-1.0.jar'', h_str = []\<rparr>],
               native_libs = []\<rparr>"
  by code_simp

section \<open>AcquisitionPlanner: files that exist already\<close>

lemma populated_mono: "populated w new w2 \<Longrightarrow> file_exists p w \<Longrightarrow> file_exists p w2"
  by (auto simp: populated_def file_exists_def)

lemma populated_append:
  "populated w (xs @ ys) w2 \<longleftrightarrow> populated w xs w2 \<and> populated w ys w2"
  by (auto simp: populated_def)

lemma populated_files:
  "files w1 = files w \<Longrightarrow> files w3 = files w2 \<Longrightarrow> populated w1 ts w3 = populated w ts w2"
  by (simp add: populated_def file_exists_def)

lemma obtain_library_exists:
  assumes "library_destination lp np lib_val = Inr p" and "file_exists p w"
  shows "\<exists>a'. obtain_library e lp np lib_val a w = (Inr a', w) \<and> multi_helper a' = multi_helper a"
proof -
  from assms(1) obtain lib download_artifact name path_str has_natives
    where f: "library_fields lib_val = Inr (lib, download_artifact, name, path_str, has_natives)"
    by (auto simp: library_destination_def ebind_def split: sum.splits)
  with assms show ?thesis
    by (auto simp: library_destination_def ebind_def obtain_library_def Let_def)
qed

lemma obtain_library_step:
  assumes "obtain_library e lp np lib_val a w = (Inr a', w')"
  shows "\<exists>new. multi_helper a' = multi_helper a @ new
           \<and> list_all (\<lambda>h. \<not> file_exists (h_path h) w) new
           \<and> files w' = files w
           \<and> (\<forall>b w2. populated w new w2 \<longrightarrow>
                 (\<exists>b' w2'. obtain_library e lp np lib_val b w2 = (Inr b', w2')
                     \<and> multi_helper b' = multi_helper b \<and> files w2' = files w2))"
proof -
  from assms obtain lib download_artifact name path_str has_natives
    where f: "library_fields lib_val = Inr (lib, download_artifact, name, path_str, has_natives)"
    by (auto simp: obtain_library_def split: sum.splits)
  define p where "p = (if has_natives then path_join np path_str else path_join lp path_str)"
  from f have d: "library_destination lp np lib_val = Inr p"
    by (simp add: library_destination_def ebind_def p_def)
  have again: "\<exists>b' w2'. obtain_library e lp np lib_val b w2 = (Inr b', w2')
                     \<and> multi_helper b' = multi_helper b \<and> files w2' = files w2"
    if "file_exists p w2" for b w2
    using obtain_library_exists [OF d that] by blast
  show ?thesis
  proof (cases "file_exists p w")
    case True
    with assms f have "multi_helper a' = multi_helper a @ []" "w' = w"
      by (auto simp: obtain_library_def p_def Let_def)
    moreover have "\<exists>b' w2'. obtain_library e lp np lib_val b w2 = (Inr b', w2')
                     \<and> multi_helper b' = multi_helper b \<and> files w2' = files w2"
      if "populated w [] w2" for b w2
      using populated_mono [OF that True] by (rule again)
    ultimately show ?thesis by (intro exI [of _ "[]"]) simp
  next
    case False
    with assms f obtain u rule_fail
      where u: "ebind (json_access download_artifact ''url'') GetString = Inr u"
        and c: "check_rules e lib = Inr rule_fail"
      by (auto simp: obtain_library_def p_def Let_def split: sum.splits)
    show ?thesis
    proof (cases rule_fail)
      case True
      with assms f False u c have "multi_helper a' = multi_helper a @ []" "files w' = files w"
        by (auto simp: obtain_library_def p_def Let_def)
      moreover have "\<exists>b' w2'. obtain_library e lp np lib_val b w2 = (Inr b', w2')
                       \<and> multi_helper b' = multi_helper b \<and> files w2' = files w2"
        if "populated w [] w2" for b w2
        using f u c True by (auto simp: obtain_library_def p_def Let_def)
      ultimately show ?thesis by (intro exI [of _ "[]"]) simp
    next
      case nf: False
      let ?h = "set_options FILE u p new_helper"
      from assms f False u c nf have "multi_helper a' = multi_helper a @ [?h]" "files w' = files w"
        by (auto simp: obtain_library_def p_def Let_def add_helper_def)
      moreover have hp: "h_path ?h = p" by (simp add: set_options_def)
      moreover have "\<exists>b' w2'. obtain_library e lp np lib_val b w2 = (Inr b', w2')
                       \<and> multi_helper b' = multi_helper b \<and> files w2' = files w2"
        if "populated w [?h] w2" for b w2
      proof -
        from that hp have "file_exists p w2" by (simp add: populated_def)
        then show ?thesis by (rule again)
      qed
      ultimately show ?thesis using False by (intro exI [of _ "[?h]"]) simp
    qed
  qed
qed

lemma obtain_asset_exists:
  assumes "ebind (GetObject asset_val) (\<lambda>asset. ebind (json_access asset ''hash'') GetString)
             = Inr hash"
    and "file_exists (path_join (path_join ap ''objects'') (take 2 hash @ CHR ''/'' # hash)) w"
  shows "obtain_asset ap asset_val a w = (Inr a, w)"
  using assms by (simp add: obtain_asset_def Let_def)

lemma obtain_asset_step:
  assumes "obtain_asset ap asset_val a w = (Inr a', w')"
  shows "\<exists>new. multi_helper a' = multi_helper a @ new
           \<and> list_all (\<lambda>h. \<not> file_exists (h_path h) w) new
           \<and> files w' = files w
           \<and> (\<forall>b w2. populated w new w2 \<longrightarrow>
                 (\<exists>b' w2'. obtain_asset ap asset_val b w2 = (Inr b', w2')
                     \<and> multi_helper b' = multi_helper b \<and> files w2' = files w2))"
proof -
  from assms obtain hash where
    h: "ebind (GetObject asset_val) (\<lambda>asset. ebind (json_access asset ''hash'') GetString)
          = Inr hash"
    by (auto simp: obtain_asset_def split: sum.splits)
  define p where "p = path_join (path_join ap ''objects'') (take 2 hash @ CHR ''/'' # hash)"
  show ?thesis
  proof (cases "file_exists p w")
    case True
    with assms h have "multi_helper a' = multi_helper a @ []" "w' = w"
      by (auto simp: obtain_asset_def p_def Let_def)
    moreover have "\<exists>b' w2'. obtain_asset ap asset_val b w2 = (Inr b', w2')
                     \<and> multi_helper b' = multi_helper b \<and> files w2' = files w2"
      if "populated w [] w2" for b w2
      using populated_mono [OF that True] obtain_asset_exists [OF h] by (auto simp: p_def)
    ultimately show ?thesis by (intro exI [of _ "[]"]) simp
  next
    case False
    let ?h = "set_options FILE (''http://resources.download.minecraft.net/''
                @ take 2 hash @ CHR ''/'' # hash) p new_helper"
    from assms h False have "multi_helper a' = multi_helper a @ [?h]" "files w' = files w"
      by (auto simp: obtain_asset_def p_def Let_def add_helper_def)
    moreover have hp: "h_path ?h = p" by (simp add: set_options_def)
    moreover have "\<exists>b' w2'. obtain_asset ap asset_val b w2 = (Inr b', w2')
                     \<and> multi_helper b' = multi_helper b \<and> files w2' = files w2"
      if "populated w [?h] w2" for b w2
    proof -
      from that hp have "file_exists p w2" by (simp add: populated_def)
      with obtain_asset_exists [OF h] show ?thesis by (auto simp: p_def)
    qed
    ultimately show ?thesis using False by (intro exI [of _ "[?h]"]) simp
  qed
qed

lemma for_each_steps:
  assumes step: "\<And>x a w a' w'. body x a w = (Inr a', w') \<Longrightarrow>
      \<exists>new. multi_helper a' = multi_helper a @ new
           \<and> list_all (\<lambda>h. \<not> file_exists (h_path h) w) new
           \<and> files w' = files w
           \<and> (\<forall>b w2. populated w new w2 \<longrightarrow>
                 (\<exists>b' w2'. body x b w2 = (Inr b', w2')
                     \<and> multi_helper b' = multi_helper b \<and> files w2' = files w2))"
    and run: "for_each body xs a w = (Inr a', w')"
  shows "\<exists>new. multi_helper a' = multi_helper a @ new
           \<and> list_all (\<lambda>h. \<not> file_exists (h_path h) w) new
           \<and> files w' = files w
           \<and> (\<forall>b w2. populated w new w2 \<longrightarrow>
                 (\<exists>b' w2'. for_each body xs b w2 = (Inr b', w2')
                     \<and> multi_helper b' = multi_helper b \<and> files w2' = files w2))"
  using run
proof (induction xs arbitrary: a w)
  case Nil
  then show ?case by (intro exI [of _ "[]"]) simp
next
  case (Cons x xs)
  from Cons.prems obtain a1 w1 where s: "body x a w = (Inr a1, w1)"
    and l: "for_each body xs a1 w1 = (Inr a', w')"
    by (auto split: sum.splits prod.splits)
  from step [OF s] obtain n1 where
    n1: "multi_helper a1 = multi_helper a @ n1" "list_all (\<lambda>h. \<not> file_exists (h_path h) w) n1"
        "files w1 = files w"
    and r1: "\<And>b w2. populated w n1 w2 \<Longrightarrow>
               \<exists>b' w2'. body x b w2 = (Inr b', w2')
                     \<and> multi_helper b' = multi_helper b \<and> files w2' = files w2"
    by blast
  from Cons.IH [OF l] obtain n2 where
    n2: "multi_helper a' = multi_helper a1 @ n2" "list_all (\<lambda>h. \<not> file_exists (h_path h) w1) n2"
        "files w' = files w1"
    and r2: "\<And>b w2. populated w1 n2 w2 \<Longrightarrow>
               \<exists>b' w2'. for_each body xs b w2 = (Inr b', w2')
                     \<and> multi_helper b' = multi_helper b \<and> files w2' = files w2"
    by blast
  have "\<exists>b' w2'. for_each body (x # xs) b w2 = (Inr b', w2')
                     \<and> multi_helper b' = multi_helper b \<and> files w2' = files w2"
    if pop: "populated w (n1 @ n2) w2" for b w2
  proof -
    from pop have p1: "populated w n1 w2" and p2: "populated w n2 w2"
      by (simp_all add: populated_append)
    from r1 [OF p1] obtain b1 w3 where
      b1: "body x b w2 = (Inr b1, w3)" "multi_helper b1 = multi_helper b" "files w3 = files w2"
      by blast
    from p2 have "populated w1 n2 w3"
      by (simp add: populated_files [OF n1(3) b1(3)])
    from r2 [OF this] obtain b2 w4 where
      "for_each body xs b1 w3 = (Inr b2, w4)" "multi_helper b2 = multi_helper b1"
      "files w4 = files w3"
      by blast
    with b1 show ?thesis by simp
  qed
  moreover have "list_all (\<lambda>h. \<not> file_exists (h_path h) w) (n1 @ n2)"
    using n1 n2 by (simp add: file_exists_def)
  ultimately show ?case
    using n1 n2 by (intro exI [of _ "n1 @ n2"]) simp
qed

lemma for_each_files:
  assumes "\<And>x a w. files (snd (body x a w)) = files w"
  shows "files (snd (for_each body xs a w)) = files w"
proof (induction xs arbitrary: a w)
  case Nil
  then show ?case by simp
next
  case (Cons x xs)
  obtain r w1 where b: "body x a w = (r, w1)" by (cases "body x a w")
  with assms [of x a w] have "files w1 = files w" by simp
  with Cons b show ?case by (cases r) simp_all
qed

lemma obtain_library_files: "files (snd (obtain_library e lp np lib_val a w)) = files w"
  by (simp add: obtain_library_def Let_def split: sum.splits prod.splits)

lemma obtain_asset_files: "files (snd (obtain_asset ap asset_val a w)) = files w"
  by (simp add: obtain_asset_def Let_def split: sum.splits)

lemma perform_blocking_files:
  "dom (files w) \<subseteq> dom (files (perform_blocking e hs w))
   \<and> list_all (\<lambda>h. file_exists (h_path h) (perform_blocking e hs w)) hs"
proof (induction hs arbitrary: w)
  case Nil
  then show ?case by simp
next
  case (Cons h hs)
  let ?w1 = "snd (perform e h w)"
  have 1: "dom (files w) \<subseteq> dom (files ?w1)" and 2: "file_exists (h_path h) ?w1"
    by (auto simp: perform_def Let_def file_exists_def)
  from Cons [of ?w1] 1 2 show ?case
    by (auto simp: file_exists_def)
qed

lemma native_entries_files: "files (native_entries z w) = files w"
  by (induction z arbitrary: w) (auto split: option.splits)

lemma install_native_library_files: "files (install_native_library e p w) = files w"
  by (simp add: install_native_library_def native_entries_files split: option.splits)

lemma install_natives_files: "files (install_natives e ps w) = files w"
  by (induction ps arbitrary: w) (simp_all add: install_native_library_files)

lemma plan_libraries_again:
  assumes "plan_libraries e v ret w = (Inr a, w1)" and "populated w (multi_helper a) w2"
  shows "\<exists>a2 w3. plan_libraries e v ret w2 = (Inr a2, w3) \<and> multi_helper a2 = []"
proof -
  let ?lp = "path_join (internal_dir e) ''libraries''"
  let ?np = "path_join (path_join (path_join (internal_dir e) ''versions'') v) ''natives''"
  let ?pre = "\<lambda>w. OUT ''Downloading libraries...''
     (create_leading_directories ?np (create_dir_if_not_exists ?lp w))"
  let ?a0 = "\<lparr>multi_helper = [], native_libs = []\<rparr>"
  from assms(1) obtain libs where libs: "ebind (json_access ret ''libraries'') GetArray = Inr libs"
    and run: "for_each (obtain_library e ?lp ?np) libs ?a0 (?pre w) = (Inr a, w1)"
    by (auto simp: plan_libraries_def Let_def split: sum.splits)
  from for_each_steps [where body = "obtain_library e ?lp ?np", OF obtain_library_step run]
  obtain new where new: "multi_helper a = multi_helper ?a0 @ new"
    and again: "\<And>b w2. populated (?pre w) new w2 \<Longrightarrow>
       \<exists>b' w2'. for_each (obtain_library e ?lp ?np) libs b w2 = (Inr b', w2')
          \<and> multi_helper b' = multi_helper b \<and> files w2' = files w2"
    by blast
  from new assms(2) have "populated (?pre w) new (?pre w2)"
    by (simp add: populated_def file_exists_def)
  from again [OF this, of ?a0] libs show ?thesis
    by (auto simp: plan_libraries_def Let_def)
qed

lemma plan_assets_again:
  assumes "plan_assets e ap c a0 w = (Inr a, w1)"
    and "populated w (drop (length (multi_helper a0)) (multi_helper a)) w2"
  shows "\<exists>a2 w3. plan_assets e ap c b0 w2 = (Inr a2, w3) \<and> multi_helper a2 = multi_helper b0"
proof -
  let ?pre = "\<lambda>w. create_dir_if_not_exists (path_join ap ''virtual'')
     (create_dir_if_not_exists (path_join ap ''objects'') w)"
  let ?body = "\<lambda>asset_val. obtain_asset ap (snd asset_val)"
  from assms(1) obtain objects where
    objects: "ebind (json_access (json_parse e c) ''objects'') GetObject = Inr objects"
    and run: "for_each ?body (object_members objects) a0 (?pre w) = (Inr a, w1)"
    by (auto simp: plan_assets_def Let_def split: sum.splits)
  from for_each_steps [where body = ?body, OF obtain_asset_step run]
  obtain new where new: "multi_helper a = multi_helper a0 @ new"
    and again: "\<And>b w2. populated (?pre w) new w2 \<Longrightarrow>
       \<exists>b' w2'. for_each ?body (object_members objects) b w2 = (Inr b', w2')
          \<and> multi_helper b' = multi_helper b \<and> files w2' = files w2"
    by blast
  from new assms(2) have "populated (?pre w) new (?pre w2)"
    by (simp add: populated_def file_exists_def)
  from again [OF this, of b0] objects show ?thesis
    by (auto simp: plan_assets_def Let_def)
qed

lemma plan_files:
  "files (snd (plan_libraries e v ret w)) = files w"
  "files (snd (plan_assets e ap c a w)) = files w"
  by (simp_all add: plan_libraries_def plan_assets_def Let_def for_each_files
      obtain_library_files obtain_asset_files split: sum.splits)

lemma obtain_version_json_result:
  "fst (obtain_version_json e v w) = fst (obtain_version_json e v w0)"
  by (simp add: obtain_version_json_def get_version_manifest_def perform_def set_options_def
      new_helper_def get_str_def Let_def split: sum.splits prod.splits)

lemma obtain_version_json_keeps:
  "dom (files w) \<subseteq> dom (files (snd (obtain_version_json e v w)))"
  by (auto simp: obtain_version_json_def get_version_manifest_def perform_def set_options_def
      new_helper_def get_str_def Let_def create_dir_if_not_exists_def OUT_def
      split: sum.splits prod.splits)

lemma for_each_prefix:
  assumes "\<And>x a w a' w'. body x a w = (Inr a', w') \<Longrightarrow> \<exists>new. multi_helper a' = multi_helper a @ new"
    and "for_each body xs a w = (Inr a', w')"
  shows "\<exists>new. multi_helper a' = multi_helper a @ new"
  using assms(2)
proof (induction xs arbitrary: a w)
  case Nil
  then show ?case by simp
next
  case (Cons x xs)
  from Cons.prems obtain a1 w1 where s: "body x a w = (Inr a1, w1)"
    and l: "for_each body xs a1 w1 = (Inr a', w')"
    by (auto split: sum.splits prod.splits)
  from assms(1) [OF s] Cons.IH [OF l] show ?case by auto
qed

lemma plan_assets_prefix:
  assumes "plan_assets e ap c a0 w = (Inr a, w1)"
  shows "\<exists>new. multi_helper a = multi_helper a0 @ new"
proof -
  from assms obtain objects w0 where
    run: "for_each (\<lambda>asset_val. obtain_asset ap (snd asset_val)) (object_members objects) a0 w0
            = (Inr a, w1)"
    by (auto simp: plan_assets_def Let_def split: sum.splits)
  show ?thesis
    by (rule for_each_prefix [OF _ run]) (use obtain_asset_step in blast)
qed

lemma populated_later:
  assumes "list_all (\<lambda>h. file_exists (h_path h) w3) ts" and "dom (files w) \<subseteq> dom (files w3)"
    and "dom (files w3) \<subseteq> dom (files w2)"
  shows "populated w ts w2"
proof -
  have "file_exists p w2" if "file_exists p w3" for p
    using that assms(3) by (auto simp: file_exists_def)
  with assms show ?thesis
    by (auto simp: populated_def list_all_iff)
qed

lemma obtain_libraries_again:
  assumes st: "stable_index_cache e"
    and run: "obtain_libraries e v w = (Inr (a, ret), w')"
  shows "\<exists>a2 w2. obtain_libraries e v w' = (Inr (a2, ret), w2) \<and> multi_helper a2 = []"
proof -
  let ?ap = "path_join (internal_dir e) ''assets''"
  let ?ip = "path_join (path_join ?ap ''indexes'') (v @ ''.json'')"
  let ?mk = "create_dir_if_not_exists (path_join ?ap ''indexes'')"
  from st have same: "fst (download_cached_file e u p b x) = fst (download_cached_file e u p b y)"
    and keeps: "dom (files x) \<subseteq> dom (files (snd (download_cached_file e u p b x)))"
    for u p b x y
    by (simp_all add: stable_index_cache_def)
  from run obtain helper w1 a1 w2 index_url c w4 w5 where
    vj: "obtain_version_json e v w = (Inr (helper, ret), w1)"
    and pl: "plan_libraries e v ret w1 = (Inr a1, w2)"
    and iu: "ebind (ebind (json_access ret ''assetIndex'') (\<lambda>i. json_access i ''url'')) GetString
           = Inr index_url"
    and dc: "download_cached_file e index_url ?ip True (?mk w2) = (c, w4)"
    and pa: "plan_assets e ?ap c a1 w4 = (Inr a, w5)"
    and w': "w' = install_natives e (native_libs a)
                   (OUT ''Extracting natives...'' (OUT ''Libraries and assets downloaded''
                     (perform_blocking e (multi_helper a)
                        (OUT ''Downloading libraries and assets...'' w5))))"
    by (auto simp: obtain_libraries_def Let_def split: sum.splits prod.splits)
  from plan_assets_prefix [OF pa] obtain new where new: "multi_helper a = multi_helper a1 @ new"
    by blast
  have f2: "files w2 = files w1" using plan_files(1) [of e v ret w1] pl by simp
  have f5: "files w5 = files w4" using plan_files(2) [of e ?ap c a1 w4] pa by simp
  have d4: "dom (files w1) \<subseteq> dom (files w4)"
    using keeps [of "?mk w2" index_url ?ip True] dc f2 by simp
  let ?w6 = "OUT ''Downloading libraries and assets...'' w5"
  have pb: "dom (files ?w6) \<subseteq> dom (files (perform_blocking e (multi_helper a) ?w6))"
    "list_all (\<lambda>h. file_exists (h_path h) (perform_blocking e (multi_helper a) ?w6))
       (multi_helper a)"
    using perform_blocking_files [of ?w6 e "multi_helper a"] by simp_all
  have fw': "files w' = files (perform_blocking e (multi_helper a) ?w6)"
    by (simp add: w' install_natives_files)
  have all: "list_all (\<lambda>h. file_exists (h_path h) w') (multi_helper a)"
    using pb(2) by (simp add: file_exists_def fw')
  have d': "dom (files w4) \<subseteq> dom (files w')"
    using pb(1) by (simp add: fw' f5)
  obtain r1' w1' where vj': "obtain_version_json e v w' = (r1', w1')"
    by (cases "obtain_version_json e v w'")
  with obtain_version_json_result [of e v w' w] vj have r1': "r1' = Inr (helper, ret)" by simp
  have k1: "dom (files w') \<subseteq> dom (files w1')"
    using obtain_version_json_keeps [of w' e v] vj' by simp
  have "populated w1 (multi_helper a1) w1'"
    using all new d4 d' k1 by (intro populated_later [of w']) auto
  from plan_libraries_again [OF pl this] obtain b1 w2' where
    pl': "plan_libraries e v ret w1' = (Inr b1, w2')" and b1: "multi_helper b1 = []"
    by blast
  have f2': "files w2' = files w1'" using plan_files(1) [of e v ret w1'] pl' by simp
  obtain c' w4' where dc': "download_cached_file e index_url ?ip True (?mk w2') = (c', w4')"
    by (cases "download_cached_file e index_url ?ip True (?mk w2')")
  with same [of index_url ?ip True "?mk w2'" "?mk w2"] dc have c': "c' = c" by simp
  have k4: "dom (files w1') \<subseteq> dom (files w4')"
    using keeps [of "?mk w2'" index_url ?ip True] dc' f2' by simp
  have "populated w4 (drop (length (multi_helper a1)) (multi_helper a)) w4'"
    using all new d' k1 k4 by (intro populated_later [of w']) auto
  from plan_assets_again [OF pa this, of b1] obtain b2 w5' where
    pa': "plan_assets e ?ap c b1 w4' = (Inr b2, w5')" and b2: "multi_helper b2 = multi_helper b1"
    by blast
  from vj' r1' pl' iu dc' c' pa' b1 b2 show ?thesis
    by (simp add: obtain_libraries_def Let_def)
qed

text \<open>
  C5. A library or an asset object whose destination file exists gets no download task,
  and the loop body leaves the state as it was. Planning the libraries or the assets never
  changes a file, whatever its outcome. After the downloads of a list of tasks and the
  installation of the natives, the cache is populated with these tasks. Planning again
  against a cache populated with the tasks of a successful planning of the same
  descriptor (of the same asset index) succeeds and adds no task. So, with a stable cached
  download of the asset index, \<open>obtain_libraries\<close> run on the state that a successful
  run of it has left succeeds with no download task at all.
\<close>

theorem acquisition_idempotent:
  "(library_destination lp np lib_val = Inr p \<and> file_exists p w \<longrightarrow>
      (\<exists>a'. obtain_library e lp np lib_val a w = (Inr a', w) \<and> multi_helper a' = multi_helper a))
   \<and> (ebind (GetObject asset_val) (\<lambda>asset. ebind (json_access asset ''hash'') GetString)
         = Inr hash
       \<and> file_exists (path_join (path_join ap ''objects'') (take 2 hash @ CHR ''/'' # hash)) w \<longrightarrow>
         obtain_asset ap asset_val a w = (Inr a, w))
   \<and> files (snd (plan_libraries e v ret w)) = files w
   \<and> files (snd (plan_assets e ap c a w)) = files w
   \<and> populated w tasks (install_natives e ns (perform_blocking e tasks w))
   \<and> (plan_libraries e v ret w = (Inr a1, w1) \<and> populated w (multi_helper a1) w2 \<longrightarrow>
         (\<exists>a2 w3. plan_libraries e v ret w2 = (Inr a2, w3) \<and> multi_helper a2 = []))
   \<and> (plan_assets e ap c a0 w = (Inr a1, w1)
       \<and> populated w (drop (length (multi_helper a0)) (multi_helper a1)) w2 \<longrightarrow>
         (\<exists>a2 w3. plan_assets e ap c b0 w2 = (Inr a2, w3) \<and> multi_helper a2 = multi_helper b0))
   \<and> (stable_index_cache e \<and> obtain_libraries e v w = (Inr (a1, ret), w1) \<longrightarrow>
         (\<exists>a2 w3. obtain_libraries e v w1 = (Inr (a2, ret), w3) \<and> multi_helper a2 = []))"
proof (intro conjI impI)
  assume "library_destination lp np lib_val = Inr p \<and> file_exists p w"
  then show "\<exists>a'. obtain_library e lp np lib_val a w = (Inr a', w)
               \<and> multi_helper a' = multi_helper a"
    using obtain_library_exists by blast
next
  assume "ebind (GetObject asset_val) (\<lambda>asset. ebind (json_access asset ''hash'') GetString)
         = Inr hash
       \<and> file_exists (path_join (path_join ap ''objects'') (take 2 hash @ CHR ''/'' # hash)) w"
  then show "obtain_asset ap asset_val a w = (Inr a, w)"
    using obtain_asset_exists by blast
next
  show "files (snd (plan_libraries e v ret w)) = files w"
    and "files (snd (plan_assets e ap c a w)) = files w"
    by (rule plan_files)+
next
  show "populated w tasks (install_natives e ns (perform_blocking e tasks w))"
    using perform_blocking_files [of w e tasks]
    by (simp add: populated_def file_exists_def install_natives_files)
next
  assume "plan_libraries e v ret w = (Inr a1, w1) \<and> populated w (multi_helper a1) w2"
  then show "\<exists>a2 w3. plan_libraries e v ret w2 = (Inr a2, w3) \<and> multi_helper a2 = []"
    using plan_libraries_again by blast
next
  assume "plan_assets e ap c a0 w = (Inr a1, w1)
       \<and> populated w (drop (length (multi_helper a0)) (multi_helper a1)) w2"
  then show "\<exists>a2 w3. plan_assets e ap c b0 w2 = (Inr a2, w3) \<and> multi_helper a2 = multi_helper b0"
    using plan_assets_again by blast
next
  assume "stable_index_cache e \<and> obtain_libraries e v w = (Inr (a1, ret), w1)"
  then show "\<exists>a2 w3. obtain_libraries e v w1 = (Inr (a2, ret), w3) \<and> multi_helper a2 = []"
    using obtain_libraries_again by blast
qed

theorem acquisition_idempotent_witness:
  "fst (plan_libraries example_env ''1.19'' example_descriptor empty_world)
     = Inr \<lparr>multi_helper = [logging_task], native_libs = example_natives\<rparr>
   \<and> fst (plan_assets example_env ''/home/steve/.mcvm/assets'' ''index''
            \<lparr>multi_helper = [logging_task], native_libs = example_natives\<rparr> empty_world)
     = Inr \<lparr>multi_helper = [logging_task, asset_task], native_libs = example_natives\<rparr>
   \<and> populated empty_world [logging_task, asset_task] example_cache
   \<and> (\<exists>a2 w3. plan_libraries example_env ''1.19'' example_descriptor example_cache = (Inr a2, w3)
         \<and> multi_helper a2 = [])
   \<and> (\<exists>a2 w3. plan_assets example_env ''/home/steve/.mcvm/assets'' ''index''
                  \<lparr>multi_helper = [], native_libs = example_natives\<rparr> example_cache = (Inr a2, w3)
         \<and> multi_helper a2 = [])
   \<and> stable_index_cache example_env
   \<and> fst (obtain_libraries example_env ''1.19'' empty_world)
       = Inr (\<lparr>multi_helper = [logging_task, asset_task], native_libs = example_natives\<rparr>,
              example_descriptor)
   \<and> (\<exists>a2 w3. obtain_libraries example_env ''1.19''
                   (snd (obtain_libraries example_env ''1.19'' empty_world))
                 = (Inr (a2, example_descriptor), w3)
         \<and> multi_helper a2 = [])
   \<and> file_exists (h_path logging_task) example_cache
   \<and> (\<exists>a'. obtain_library example_env ''/home/steve/.mcvm/libraries''
                ''/home/steve/.mcvm/versions/1.19/natives'' logging_library
                \<lparr>multi_helper = [], native_libs = []\<rparr> example_cache = (Inr a', example_cache)
          \<and> multi_helper a' = [])"
proof -
  let ?a1 = "\<lparr>multi_helper = [logging_task], native_libs = example_natives\<rparr>"
  let ?a2 = "\<lparr>multi_helper = [logging_task, asset_task], native_libs = example_natives\<rparr>"
  note t = acquisition_idempotent
  have l1: "fst (plan_libraries example_env ''1.19'' example_descriptor empty_world) = Inr ?a1"
    by code_simp
  have s1: "fst (plan_assets example_env ''/home/steve/.mcvm/assets'' ''index'' ?a1 empty_world)
      = Inr ?a2"
    by code_simp
  have pop: "populated empty_world [logging_task, asset_task] example_cache"
    unfolding example_cache_def
    by (rule t [THEN conjunct2, THEN conjunct2, THEN conjunct2, THEN conjunct2, THEN conjunct1])
  then have pop1: "populated empty_world [logging_task] example_cache"
    and pop2: "populated empty_world [asset_task] example_cache"
    by (simp_all add: populated_def)
  have l2: "\<exists>a2 w3. plan_libraries example_env ''1.19'' example_descriptor example_cache
      = (Inr a2, w3) \<and> multi_helper a2 = []"
    by (rule t [THEN conjunct2, THEN conjunct2, THEN conjunct2, THEN conjunct2, THEN conjunct2,
          THEN conjunct1, rule_format,
          where ?a1.0 = ?a1 and w = empty_world
            and ?w1.0 = "snd (plan_libraries example_env ''1.19'' example_descriptor empty_world)"])
       (simp add: l1 [symmetric] pop1)
  have s2: "\<exists>a2 w3. plan_assets example_env ''/home/steve/.mcvm/assets'' ''index''
                  \<lparr>multi_helper = [], native_libs = example_natives\<rparr> example_cache = (Inr a2, w3)
         \<and> multi_helper a2 = multi_helper \<lparr>multi_helper = [], native_libs = example_natives\<rparr>"
    by (rule t [THEN conjunct2, THEN conjunct2, THEN conjunct2, THEN conjunct2, THEN conjunct2,
          THEN conjunct2, THEN conjunct1, rule_format,
          where ?a1.0 = ?a2 and ?a0.0 = ?a1 and w = empty_world
            and ?w1.0 = "snd (plan_assets example_env ''/home/steve/.mcvm/assets'' ''index''
                             ?a1 empty_world)"])
       (simp add: s1 [symmetric] pop2)
  have ex: "file_exists (h_path logging_task) example_cache"
    using pop by (simp add: populated_def)
  have dest: "library_destination ''/home/steve/.mcvm/libraries''
      ''/home/steve/.mcvm/versions/1.19/natives'' logging_library = Inr (h_path logging_task)"
    by (simp add: library_destination_def library_fields_def logging_library_def logging_task_def
        json_access_def GetObject_def GetString_def c_str_def HasMember_def ebind_def path_join_def)
  have o: "\<exists>a'. obtain_library example_env ''/home/steve/.mcvm/libraries''
                ''/home/steve/.mcvm/versions/1.19/natives'' logging_library
                \<lparr>multi_helper = [], native_libs = []\<rparr> example_cache = (Inr a', example_cache)
          \<and> multi_helper a' = multi_helper \<lparr>multi_helper = [], native_libs = []\<rparr>"
    by (rule t [THEN conjunct1, rule_format, OF conjI, OF dest ex])
  have st: "stable_index_cache example_env"
    by (simp add: stable_index_cache_def example_env_def)
  have r1: "fst (obtain_libraries example_env ''1.19'' empty_world)
       = Inr (?a2, example_descriptor)"
    by code_simp
  have r2: "\<exists>a2 w3. obtain_libraries example_env ''1.19''
                   (snd (obtain_libraries example_env ''1.19'' empty_world))
                 = (Inr (a2, example_descriptor), w3)
         \<and> multi_helper a2 = []"
    by (rule t [THEN conjunct2, THEN conjunct2, THEN conjunct2, THEN conjunct2, THEN conjunct2,
          THEN conjunct2, THEN conjunct2, rule_format,
          where ?a1.0 = ?a2 and w = empty_world])
       (simp add: st r1 [symmetric])
  from l1 s1 pop l2 s2 ex o st r1 r2 show ?thesis by simp
qed

section \<open>AcquisitionPlanner: the destination and the URL of an asset object\<close>

lemma path_join_relative:
  "p \<noteq> [] \<Longrightarrow> last p \<noteq> CHR ''/'' \<Longrightarrow> q \<noteq> [] \<Longrightarrow> hd q \<noteq> CHR ''/'' \<Longrightarrow>
   path_join p q = p @ CHR ''/'' # q"
  by (simp add: path_join_def)

text \<open>
  C8. For an asset object whose hash \<open>h\<close> has 40 characters, all of them hexadecimal
  digits, the loop body computes the destination
  \<open><assets directory>/objects/<first two characters of h>/<h>\<close>, where the assets
  directory is \<open>assets\<close> under the launcher's directory, and the URL
  \<open>http://resources.download.minecraft.net/<first two characters of h>/<h>\<close>: it adds
  the download task with this URL and this destination, unless the destination exists.
\<close>

theorem asset_hash_sharding:
  assumes "length h = 40" and "set h \<subseteq> set ''0123456789abcdef''"
    and "json_access asset ''hash'' = Inr (JString h)"
  shows "obtain_asset (path_join (internal_dir e) ''assets'') asset a w =
     (let dest = path_join (internal_dir e) ''assets'' @ ''/objects/'' @ take 2 h @ CHR ''/'' # h;
          u = ''http://resources.download.minecraft.net/'' @ take 2 h @ CHR ''/'' # h
      in if file_exists dest w then (Inr a, w)
         else (Inr (add_helper \<lparr>h_mode = FILE, h_url = u, h_path = dest, h_str = []\<rparr> a),
               create_leading_directories dest w))"
proof -
  let ?ap = "path_join (internal_dir e) ''assets''"
  from assms(1) obtain c cs where h: "h = c # cs" by (cases h) auto
  with assms(2) have c: "c \<noteq> CHR ''/''" by auto
  from assms(3) have obj: "GetObject asset = Inr asset"
    by (cases asset) (auto simp: json_access_def GetObject_def)
  have 1: "path_join ?ap ''objects'' = ?ap @ ''/objects''"
    using path_join_assets [of "internal_dir e"] by (simp add: path_join_relative)
  have 2: "path_join (?ap @ ''/objects'') (take 2 h @ CHR ''/'' # h)
             = ?ap @ ''/objects/'' @ take 2 h @ CHR ''/'' # h"
    using c by (simp add: path_join_relative h)
  from assms(2) have 3: "c_str h = h"
    by (intro c_str_id) auto
  show ?thesis
    using assms(3) obj
    by (simp add: obtain_asset_def ebind_def GetString_def Let_def 1 2 3 set_options_def
        new_helper_def)
qed

theorem asset_hash_sharding_witness:
  "length example_hash = 40 \<and> set example_hash \<subseteq> set ''0123456789abcdef''
   \<and> obtain_asset (path_join (internal_dir example_env) ''assets'')
        (JObject [(''hash'', JString example_hash), (''size'', JNumber 3665)])
        \<lparr>multi_helper = [], native_libs = []\<rparr> empty_world
      = (Inr \<lparr>multi_helper =
                 [\<lparr>h_mode = FILE,
                   h_url = ''http://resources.download.minecraft.net/01/0123456789abcdef0123456789abcdef01234567'',
                   h_path = ''/home/steve/.mcvm/assets/objects/01/0123456789abcdef0123456789abcdef01234567'',
                   h_str = []\<rparr>],
               native_libs = []\<rparr>,
         create_leading_directories
           ''/home/steve/.mcvm/assets/objects/01/0123456789abcdef0123456789abcdef01234567''
           empty_world)"
proof -
  have 1: "length example_hash = 40" and 2: "set example_hash \<subseteq> set ''0123456789abcdef''"
    by (simp_all add: example_hash_def)
  have 3: "json_access (JObject [(''hash'', JString example_hash), (''size'', JNumber 3665)])
             ''hash'' = Inr (JString example_hash)"
    by (simp add: json_access_def)
  have 4: "path_join (internal_dir example_env) ''assets'' = ''/home/steve/.mcvm/assets''"
    by (simp add: example_env_def path_join_def)
  have 5: "\<not> file_exists p empty_world" for p
    by (simp add: file_exists_def empty_world_def)
  from asset_hash_sharding [OF 1 2 3, of example_env "\<lparr>multi_helper = [], native_libs = []\<rparr>"
      empty_world]
  show ?thesis
    by (simp add: 1 2 4 5 add_helper_def Let_def) (simp add: example_hash_def)
qed

section \<open>AcquisitionPlanner: a native library that its rules exclude\<close>

text \<open>
  C7, where the code departs from the claim. On linux the rules of the example's native
  library exclude it, and the loop body adds no download task for it; but its path has
  been pushed on \<open>native_libs\<close> before the rules are looked at (line 92), so the whole
  function hands the path to \<open>install_native_library\<close> although the archive was never
  requested.
\<close>

theorem excluded_native_library_installed:
  "check_rules example_env excluded_native_library = Inr True
   \<and> fst (obtain_library example_env ''/home/steve/.mcvm/libraries''
            ''/home/steve/.mcvm/versions/1.19/natives'' excluded_native_library
            \<lparr>multi_helper = [], native_libs = []\<rparr> empty_world)
       = Inr \<lparr>multi_helper = [], native_libs = example_natives\<rparr>
   \<and> map_sum id fst (fst (obtain_libraries example_env ''1.19'' empty_world))
       = Inr \<lparr>multi_helper = [logging_task, asset_task], native_libs = example_natives\<rparr>
   \<and> ''https://libraries.example.org/lwjgl-platform-2.9.4.jar''
       \<notin> set (requests (snd (obtain_libraries example_env ''1.19'' empty_world)))"
  by code_simp

section \<open>NativeModuleInstaller\<close>

text \<open>
  C9, where the code departs from the claim. \<open>install_native_library\<close> writes no file and
  makes no directory, whatever the archive holds: all it does is to write one console
  line for each entry whose stat succeeds, as for the archive of the example.
\<close>

theorem install_native_library_extracts_nothing:
  "files (install_native_library e p w) = files w
   \<and> dirs (install_native_library e p w) = dirs w
   \<and> requests (install_native_library e p w) = requests w
   \<and> zip_open example_env (h_path logging_task) example_cache
       = Some [Some ''liblwjgl.so'', None, Some ''libopenal.so'']
   \<and> console (install_native_library example_env (h_path logging_task) example_cache)
       = console example_cache @ [''NATIVEliblwjgl.so'', ''NATIVElibopenal.so'']"
proof -
  have n: "files (native_entries z w) = files w \<and> dirs (native_entries z w) = dirs w
      \<and> requests (native_entries z w) = requests w" for z w
    by (induction z arbitrary: w) (auto simp: OUT_def split: option.splits)
  have 1: "files (install_native_library e p w) = files w
      \<and> dirs (install_native_library e p w) = dirs w
      \<and> requests (install_native_library e p w) = requests w"
    by (simp add: install_native_library_def n split: option.splits)
  have 2: "files example_cache (h_path logging_task) = Some ''body''"
    by code_simp
  then have 3: "zip_open example_env (h_path logging_task) example_cache
       = Some [Some ''liblwjgl.so'', None, Some ''libopenal.so'']"
    by (simp add: example_env_def)
  from 1 3 show ?thesis
    by (simp add: install_native_library_def OUT_def)
qed

section \<open>LaunchArgumentTemplater: no flag with a dollar sign\<close>

lemma repl_arg_token_checked:
  "repl_arg_token e r c is_jvm paths = Inr (dropped, c') \<Longrightarrow> dropped \<or> CHR ''$'' \<notin> set c'"
  by (auto simp: repl_arg_token_def assert_no_dollar_def Let_def split: option.splits if_splits)

lemma add_contents_flags:
  assumes "add_contents e paths is_jvm c r = Inr r'" and "dollar_free (flags r)"
  shows "dollar_free (flags r') \<and> output r' = output r"
proof -
  from assms(1) obtain dropped c' where t: "repl_arg_token e r c is_jvm paths = Inr (dropped, c')"
    by (auto simp: add_contents_def split: sum.splits)
  show ?thesis
  proof (cases dropped)
    case True
    with assms t have "r' = (if flags r \<noteq> [] then r\<lparr>flags := butlast (flags r)\<rparr> else r)"
      by (simp add: add_contents_def)
    with assms(2) show ?thesis
      by (auto simp: dollar_free_def list_all_iff dest: in_set_butlastD)
  next
    case False
    with repl_arg_token_checked [OF t] have nd: "CHR ''$'' \<notin> set c'" by simp
    from False assms t have "r' = add_flag c' r"
      by (simp add: add_contents_def split: if_splits)
    with assms(2) nd show ?thesis
      by (auto simp: dollar_free_def add_flag_def)
  qed
qed

lemma parse_flags:
  "parse_single_arg e paths is_jvm v r = Inr r' \<longrightarrow> dollar_free (flags r)
      \<longrightarrow> dollar_free (flags r') \<and> output r' = output r"
  "parse_single_args e paths is_jvm vs r = Inr r' \<longrightarrow> dollar_free (flags r)
      \<longrightarrow> dollar_free (flags r') \<and> output r' = output r"
proof (induction e paths is_jvm v r and e paths is_jvm vs r arbitrary: r' and r'
       rule: parse_single_arg_parse_single_args.induct)
  case (1 e paths is_jvm s r)
  then show ?case using add_contents_flags by auto
next
  case (2 e paths is_jvm ms r)
  then show ?case by (auto split: sum.splits if_splits)
next
  case (3 e paths is_jvm vs r)
  show ?case
  proof (intro impI)
    assume a: "parse_single_arg e paths is_jvm (JArray vs) r = Inr r'" and d: "dollar_free (flags r)"
    then obtain r1 where r1: "parse_single_args e paths is_jvm vs r = Inr r1"
      and r2: "add_contents e paths is_jvm [] r1 = Inr r'"
      by (auto split: sum.splits)
    from 3 r1 d have "dollar_free (flags r1) \<and> output r1 = output r" by blast
    with add_contents_flags [OF r2] show "dollar_free (flags r') \<and> output r' = output r" by simp
  qed
next
  case (6 e paths is_jvm v vs r)
  show ?case
  proof (intro impI)
    assume a: "parse_single_args e paths is_jvm (v # vs) r = Inr r'" and d: "dollar_free (flags r)"
    then obtain r1 where r1: "parse_single_arg e paths is_jvm v r = Inr r1"
      and r2: "parse_single_args e paths is_jvm vs r1 = Inr r'"
      by (auto split: sum.splits)
    from 6(1) r1 d have i1: "dollar_free (flags r1) \<and> output r1 = output r" by blast
    from 6(2) [OF r1] r2 i1 show "dollar_free (flags r') \<and> output r' = output r" by simp
  qed
qed simp_all

lemma fold_add_word: "output (fold add_word fs r) = output r @ written fs"
  by (induction fs arbitrary: r) (auto simp: add_word_def written_def)

lemma write_flags_output:
  "output (write_flags r) = output r @ written (flags r)" "flags (write_flags r) = []"
  by (simp_all add: write_flags_def fold_add_word)

lemma parse_args_steps:
  assumes "parse_args e ret paths r = Inr r'"
  shows "\<exists>arguments jvm_args game_args main_class r1 r4.
           ebind (json_access ret ''arguments'') GetObject = Inr arguments
         \<and> ebind (json_access arguments ''jvm'') GetArray = Inr jvm_args
         \<and> ebind (json_access arguments ''game'') GetArray = Inr game_args
         \<and> ebind (json_access ret ''mainClass'') GetString = Inr main_class
         \<and> parse_single_args e paths True jvm_args r = Inr r1
         \<and> parse_single_args e paths False game_args
              (add_word main_class
                 (write_flags (add_flag ''-Dorg.lwjgl.util.DebugLoader=true'' r1))) = Inr r4
         \<and> r' = write_flags r4"
proof (cases ret)
  case (JObject ms)
  with assms show ?thesis
    unfolding parse_args_def Let_def by (simp add: ebind_Inr [of _ _ r']) blast
qed (use assms in \<open>simp_all add: parse_args_def\<close>)

lemma add_contents_assert:
  assumes "repl_arg_token e r c is_jvm paths = Inl AssertionFailed"
  shows "add_contents e paths is_jvm c r = Inl AssertionFailed"
  using assms by (simp add: add_contents_def)

text \<open>
  C3. When \<open>parse_args\<close> returns, the command is the old one followed by the flags of
  the JVM phase and the debug flag, the main class, and the flags of the game phase, and
  none of these flags contains the character \<open>$\<close>. The same holds of the flags after any
  one argument. The token replacement hands back contents with a \<open>$\<close> only when it tells
  the caller to drop the argument (the auth placeholders of an offline user, which are
  not substituted at all); contents that have a \<open>$\<close> after the substitutions of their
  phase fail the assertion, so that no flag is added.
\<close>

theorem launch_flags_dollar_free:
  "(parse_args e ret paths r = Inr r' \<and> dollar_free (flags r) \<longrightarrow>
      (\<exists>arguments jvm_args game_args main_class r_jvm r_game.
          ebind (json_access ret ''arguments'') GetObject = Inr arguments
        \<and> ebind (json_access arguments ''jvm'') GetArray = Inr jvm_args
        \<and> ebind (json_access arguments ''game'') GetArray = Inr game_args
        \<and> ebind (json_access ret ''mainClass'') GetString = Inr main_class
        \<and> parse_single_args e paths True jvm_args r = Inr r_jvm
        \<and> parse_single_args e paths False game_args
             (add_word main_class
                (write_flags (add_flag ''-Dorg.lwjgl.util.DebugLoader=true'' r_jvm)))
            = Inr r_game
        \<and> output r' = output r
            @ written (flags r_jvm @ [''-Dorg.lwjgl.util.DebugLoader=true''])
            @ CHR '' '' # main_class @ written (flags r_game)
        \<and> dollar_free
             (flags r_jvm @ [''-Dorg.lwjgl.util.DebugLoader=true''] @ flags r_game)
        \<and> flags r' = []))
   \<and> (parse_single_arg e paths is_jvm arg r = Inr r1 \<and> dollar_free (flags r) \<longrightarrow>
        dollar_free (flags r1) \<and> output r1 = output r)
   \<and> (repl_arg_token e r contents is_jvm paths = Inr (dropped, contents') \<longrightarrow>
        dropped \<or> CHR ''$'' \<notin> set contents')
   \<and> (mc_version_reverse_map e (version r) = Some vs
       \<and> CHR ''$'' \<in> set (jvm_tokens r paths vs contents) \<longrightarrow>
        add_contents e paths True contents r = Inl AssertionFailed)
   \<and> (mc_version_reverse_map e (version r) = Some vs \<and> \<not> is_offline (user r)
       \<and> CHR ''$'' \<in> set (GAME_ARG_REPL ''${user_type}'' ''mojang''
                              (auth_tokens (game_tokens r paths vs contents))) \<longrightarrow>
        add_contents e paths False contents r = Inl AssertionFailed)
   \<and> (mc_version_reverse_map e (version r) = Some vs \<and> is_offline (user r)
       \<and> game_tokens r paths vs contents \<notin> set auth_placeholders
       \<and> CHR ''$'' \<in> set (GAME_ARG_REPL ''${user_type}'' ''mojang''
                              (game_tokens r paths vs contents)) \<longrightarrow>
        add_contents e paths False contents r = Inl AssertionFailed)"
proof (intro conjI impI)
  assume a: "parse_args e ret paths r = Inr r' \<and> dollar_free (flags r)"
  let ?debug = "''-Dorg.lwjgl.util.DebugLoader=true''"
  from parse_args_steps [of e ret paths r r'] a
  obtain arguments jvm_args game_args main_class r1 r4 where
    doc: "ebind (json_access ret ''arguments'') GetObject = Inr arguments"
      "ebind (json_access arguments ''jvm'') GetArray = Inr jvm_args"
      "ebind (json_access arguments ''game'') GetArray = Inr game_args"
      "ebind (json_access ret ''mainClass'') GetString = Inr main_class"
    and jvm: "parse_single_args e paths True jvm_args r = Inr r1"
    and game: "parse_single_args e paths False game_args
              (add_word main_class (write_flags (add_flag ?debug r1))) = Inr r4"
    and r': "r' = write_flags r4"
    by blast
  let ?r3 = "add_word main_class (write_flags (add_flag ?debug r1))"
  from parse_flags(2) jvm a have 1: "dollar_free (flags r1)" "output r1 = output r"
    by blast+
  have 3: "flags ?r3 = []"
    "output ?r3 = output r @ written (flags r1 @ [?debug]) @ CHR '' '' # main_class"
    by (simp_all add: add_word_def write_flags_output add_flag_def 1)
  then have "dollar_free (flags ?r3)" by (simp add: dollar_free_def)
  with parse_flags(2) game have 4: "dollar_free (flags r4)" "output r4 = output ?r3"
    by blast+
  have "output r' = output r @ written (flags r1 @ [?debug]) @ CHR '' '' # main_class
          @ written (flags r4)"
    by (simp add: r' write_flags_output 4 3)
  moreover have "dollar_free (flags r1 @ [?debug] @ flags r4)"
    using 1 4 by (simp add: dollar_free_def)
  moreover have "flags r' = []" by (simp add: r' write_flags_output)
  ultimately show "\<exists>arguments jvm_args game_args main_class r_jvm r_game.
          ebind (json_access ret ''arguments'') GetObject = Inr arguments
        \<and> ebind (json_access arguments ''jvm'') GetArray = Inr jvm_args
        \<and> ebind (json_access arguments ''game'') GetArray = Inr game_args
        \<and> ebind (json_access ret ''mainClass'') GetString = Inr main_class
        \<and> parse_single_args e paths True jvm_args r = Inr r_jvm
        \<and> parse_single_args e paths False game_args
             (add_word main_class (write_flags (add_flag ?debug r_jvm))) = Inr r_game
        \<and> output r' = output r @ written (flags r_jvm @ [?debug])
            @ CHR '' '' # main_class @ written (flags r_game)
        \<and> dollar_free (flags r_jvm @ [?debug] @ flags r_game)
        \<and> flags r' = []"
    using doc jvm game by blast
next
  assume "parse_single_arg e paths is_jvm arg r = Inr r1 \<and> dollar_free (flags r)"
  with parse_flags(1) show "dollar_free (flags r1)" "output r1 = output r"
    by blast+
next
  assume "repl_arg_token e r contents is_jvm paths = Inr (dropped, contents')"
  then show "dropped \<or> CHR ''$'' \<notin> set contents'"
    by (rule repl_arg_token_checked)
next
  assume "mc_version_reverse_map e (version r) = Some vs
       \<and> CHR ''$'' \<in> set (jvm_tokens r paths vs contents)"
  then show "add_contents e paths True contents r = Inl AssertionFailed"
    by (intro add_contents_assert) (simp add: repl_arg_token_def assert_no_dollar_def)
next
  assume "mc_version_reverse_map e (version r) = Some vs \<and> \<not> is_offline (user r)
       \<and> CHR ''$'' \<in> set (GAME_ARG_REPL ''${user_type}'' ''mojang''
                              (auth_tokens (game_tokens r paths vs contents)))"
  then show "add_contents e paths False contents r = Inl AssertionFailed"
    by (intro add_contents_assert) (simp add: repl_arg_token_def assert_no_dollar_def)
next
  assume "mc_version_reverse_map e (version r) = Some vs \<and> is_offline (user r)
       \<and> game_tokens r paths vs contents \<notin> set auth_placeholders
       \<and> CHR ''$'' \<in> set (GAME_ARG_REPL ''${user_type}'' ''mojang''
                              (game_tokens r paths vs contents))"
  then show "add_contents e paths False contents r = Inl AssertionFailed"
    by (intro add_contents_assert)
      (simp add: repl_arg_token_def assert_no_dollar_def auth_placeholders_def)
qed

theorem launch_flags_dollar_free_witness:
  "dollar_free (flags (example_runner True))
   \<and> parse_args example_env example_descriptor example_paths (example_runner True)
       = Inr ((example_runner True)\<lparr>output := example_command\<rparr>)
   \<and> (\<exists>(r_jvm :: GameRunner) (r_game :: GameRunner).
          example_command = ''java''
            @ written (flags r_jvm @ [''-Dorg.lwjgl.util.DebugLoader=true''])
            @ '' net.minecraft.client.main.Main'' @ written (flags r_game)
        \<and> dollar_free
             (flags r_jvm @ [''-Dorg.lwjgl.util.DebugLoader=true''] @ flags r_game))
   \<and> add_contents example_env example_paths True ''-Dos.name=${os_name}'' (example_runner True)
       = Inl AssertionFailed
   \<and> add_contents example_env example_paths False ''${clientid}'' (example_runner False)
       = Inl AssertionFailed
   \<and> add_contents example_env example_paths False ''${clientid}'' (example_runner True)
       = Inl AssertionFailed"
proof -
  note t = launch_flags_dollar_free
  have d: "dollar_free (flags (example_runner True))"
    by (simp add: example_runner_def dollar_free_def)
  have run: "parse_args example_env example_descriptor example_paths (example_runner True)
       = Inr ((example_runner True)\<lparr>output := example_command\<rparr>)"
    by code_simp
  have mc: "ebind (json_access example_descriptor ''mainClass'') GetString = Inr m
      \<longleftrightarrow> m = ''net.minecraft.client.main.Main''" for m
    by (auto simp: example_descriptor_def json_access_def GetString_def c_str_def ebind_def)
  from t [THEN conjunct1, rule_format, OF conjI, OF run d]
  obtain arguments jvm_args game_args main_class r_jvm r_game where
    "ebind (json_access example_descriptor ''arguments'') GetObject = Inr arguments
     \<and> ebind (json_access arguments ''jvm'') GetArray = Inr jvm_args
     \<and> ebind (json_access arguments ''game'') GetArray = Inr game_args
     \<and> ebind (json_access example_descriptor ''mainClass'') GetString = Inr main_class
     \<and> parse_single_args example_env example_paths True jvm_args (example_runner True)
         = Inr r_jvm
     \<and> parse_single_args example_env example_paths False game_args
          (add_word main_class
             (write_flags (add_flag ''-Dorg.lwjgl.util.DebugLoader=true'' r_jvm)))
         = Inr r_game
     \<and> output ((example_runner True)\<lparr>output := example_command\<rparr>)
         = output (example_runner True)
           @ written (flags r_jvm @ [''-Dorg.lwjgl.util.DebugLoader=true''])
           @ CHR '' '' # main_class @ written (flags r_game)
     \<and> dollar_free
          (flags r_jvm @ [''-Dorg.lwjgl.util.DebugLoader=true''] @ flags r_game)
     \<and> flags ((example_runner True)\<lparr>output := example_command\<rparr>) = []"
    by (elim exE) (rule that)
  then have
    m: "ebind (json_access example_descriptor ''mainClass'') GetString = Inr main_class"
    and out: "output ((example_runner True)\<lparr>output := example_command\<rparr>)
        = output (example_runner True)
          @ written (flags r_jvm @ [''-Dorg.lwjgl.util.DebugLoader=true''])
          @ CHR '' '' # main_class @ written (flags r_game)"
    and df: "dollar_free
        (flags r_jvm @ [''-Dorg.lwjgl.util.DebugLoader=true''] @ flags r_game)"
    by simp_all
  from m have "main_class = ''net.minecraft.client.main.Main''" by (simp add: mc)
  with out have cmd: "example_command = ''java''
            @ written (flags r_jvm @ [''-Dorg.lwjgl.util.DebugLoader=true''])
            @ '' net.minecraft.client.main.Main'' @ written (flags r_game)"
    by (simp add: example_runner_def)
  have 1: "\<exists>(r_jvm :: GameRunner) (r_game :: GameRunner).
          example_command = ''java''
            @ written (flags r_jvm @ [''-Dorg.lwjgl.util.DebugLoader=true''])
            @ '' net.minecraft.client.main.Main'' @ written (flags r_game)
        \<and> dollar_free
             (flags r_jvm @ [''-Dorg.lwjgl.util.DebugLoader=true''] @ flags r_game)"
  proof (intro exI conjI)
    show "example_command = ''java''
            @ written (flags r_jvm @ [''-Dorg.lwjgl.util.DebugLoader=true''])
            @ '' net.minecraft.client.main.Main'' @ written (flags r_game)"
      by (rule cmd)
    show "dollar_free
        (flags r_jvm @ [''-Dorg.lwjgl.util.DebugLoader=true''] @ flags r_game)"
      by (rule df)
  qed
  have 2: "add_contents example_env example_paths True ''-Dos.name=${os_name}''
      (example_runner True) = Inl AssertionFailed"
    by (rule t [THEN conjunct2, THEN conjunct2, THEN conjunct2, THEN conjunct1, rule_format,
          where vs = "''1.19''"]) code_simp
  have 3: "add_contents example_env example_paths False ''${clientid}''
      (example_runner False) = Inl AssertionFailed"
    by (rule t [THEN conjunct2, THEN conjunct2, THEN conjunct2, THEN conjunct2, THEN conjunct1,
          rule_format, where vs = "''1.19''"]) code_simp
  have 4: "add_contents example_env example_paths False ''${clientid}''
      (example_runner True) = Inl AssertionFailed"
    by (rule t [THEN conjunct2, THEN conjunct2, THEN conjunct2, THEN conjunct2, THEN conjunct2,
          rule_format, where vs = "''1.19''"]) code_simp
  from d run 1 2 3 4 show ?thesis by blast
qed

section \<open>LaunchArgumentTemplater: the auth placeholders of an offline user\<close>

lemma game_tokens_auth:
  "c \<in> set auth_placeholders \<Longrightarrow> game_tokens r paths vs c = c"
  by (auto simp: auth_placeholders_def game_tokens_def GAME_ARG_REPL_def)

lemma repl_arg_token_offline_auth:
  assumes "is_offline (user r)" and "mc_version_reverse_map e (version r) = Some vs"
    and "c \<in> set auth_placeholders"
  shows "repl_arg_token e r c False paths = Inr (True, c)"
  using assms game_tokens_auth [OF assms(3), of r paths vs]
  by (auto simp: repl_arg_token_def auth_placeholders_def Let_def)

lemma c_str_auth: "c \<in> set auth_placeholders \<Longrightarrow> c_str c = c"
  by (auto simp: auth_placeholders_def c_str_def)

lemma parse_offline_auth:
  assumes "is_offline (user r)" and "mc_version_reverse_map e (version r) = Some vs"
    and "c \<in> set auth_placeholders"
  shows "parse_single_arg e paths False (JString c) r = Inr (r\<lparr>flags := butlast (flags r)\<rparr>)"
  using repl_arg_token_offline_auth [OF assms, of paths]
  by (simp add: add_contents_def c_str_auth [OF assms(3)])

lemma dollar_free_not_auth:
  "dollar_free fs \<Longrightarrow> list_all (\<lambda>f. f \<notin> set auth_placeholders) fs"
  by (auto simp: dollar_free_def list_all_iff auth_placeholders_def)

text \<open>
  C4. With an offline user, in the game phase: a literal that is one of the three auth
  placeholders adds no flag and takes the last flag away (if there is one); so a key
  whose flag has just been added is dropped together with such a value, and the flags
  are as they were before the pair. None of the flags that the game phase leaves is an
  auth placeholder, and none contains a \<open>$\<close>. The token replacement of the game phase
  never gets to the substitution of an auth placeholder: it either tells the caller to
  drop the argument or checks the contents as the other substitutions have left them.
\<close>

theorem offline_auth_dropped:
  assumes "is_offline (user r)" and "mc_version_reverse_map e (version r) = Some vs"
  shows "(c \<in> set auth_placeholders \<longrightarrow>
            parse_single_arg e paths False (JString c) r
              = Inr (r\<lparr>flags := butlast (flags r)\<rparr>))
       \<and> (c \<in> set auth_placeholders
           \<and> parse_single_arg e paths False key r = Inr (add_flag k r) \<longrightarrow>
            parse_single_args e paths False [key, JString c] r = Inr r)
       \<and> (parse_single_args e paths False game_args r = Inr r' \<and> dollar_free (flags r) \<longrightarrow>
            dollar_free (flags r') \<and> list_all (\<lambda>f. f \<notin> set auth_placeholders) (flags r'))
       \<and> repl_arg_token e r contents False paths
           = (if game_tokens r paths vs contents \<in> set auth_placeholders
              then Inr (True, game_tokens r paths vs contents)
              else assert_no_dollar
                     (GAME_ARG_REPL ''${user_type}'' ''mojang'' (game_tokens r paths vs contents)))"
proof (intro conjI impI)
  show "repl_arg_token e r contents False paths
           = (if game_tokens r paths vs contents \<in> set auth_placeholders
              then Inr (True, game_tokens r paths vs contents)
              else assert_no_dollar
                     (GAME_ARG_REPL ''${user_type}'' ''mojang'' (game_tokens r paths vs contents)))"
    using assms by (simp add: repl_arg_token_def auth_placeholders_def Let_def)
next
  assume "c \<in> set auth_placeholders"
  then show "parse_single_arg e paths False (JString c) r = Inr (r\<lparr>flags := butlast (flags r)\<rparr>)"
    by (rule parse_offline_auth [OF assms])
next
  assume a: "c \<in> set auth_placeholders
           \<and> parse_single_arg e paths False key r = Inr (add_flag k r)"
  have "is_offline (user (add_flag k r))"
    and "mc_version_reverse_map e (version (add_flag k r)) = Some vs"
    using assms by (simp_all add: add_flag_def)
  from parse_offline_auth [OF this, of c paths] a
  show "parse_single_args e paths False [key, JString c] r = Inr r"
    by (simp add: add_flag_def)
next
  assume a: "parse_single_args e paths False game_args r = Inr r' \<and> dollar_free (flags r)"
  with parse_flags(2) show d: "dollar_free (flags r')" by blast
  then show "list_all (\<lambda>f. f \<notin> set auth_placeholders) (flags r')"
    by (rule dollar_free_not_auth)
qed

theorem offline_auth_dropped_witness:
  "is_offline (user (example_runner True))
   \<and> parse_single_arg example_env example_paths False (JString ''${auth_uuid}'')
        ((example_runner True)\<lparr>flags := [''--width'', ''--uuid'']\<rparr>)
      = Inr ((example_runner True)\<lparr>flags := [''--width'']\<rparr>)
   \<and> parse_single_args example_env example_paths False
        [JString ''--username'', JString ''${auth_player_name}''] (example_runner True)
      = Inr (example_runner True)
   \<and> parse_single_args example_env example_paths False example_game_args (example_runner True)
      = Inr ((example_runner True)\<lparr>flags := [''--version'', ''1.19'']\<rparr>)
   \<and> dollar_free [''--version'', ''1.19'']
   \<and> list_all (\<lambda>f. f \<notin> set auth_placeholders) [''--version'', ''1.19'']"
proof -
  let ?r = "example_runner True"
  let ?r1 = "?r\<lparr>flags := [''--width'', ''--uuid'']\<rparr>"
  have off: "is_offline (user ?r)" "is_offline (user ?r1)"
    by (simp_all add: example_runner_def)
  have ver: "mc_version_reverse_map example_env (version ?r) = Some ''1.19''"
    "mc_version_reverse_map example_env (version ?r1) = Some ''1.19''"
    by (simp_all add: example_runner_def example_env_def)
  have auth: "''${auth_uuid}'' \<in> set auth_placeholders"
    "''${auth_player_name}'' \<in> set auth_placeholders"
    by (simp_all add: auth_placeholders_def)
  have key: "parse_single_arg example_env example_paths False (JString ''--username'') ?r
      = Inr (add_flag ''--username'' ?r)"
    by code_simp
  have run: "parse_single_args example_env example_paths False example_game_args ?r
      = Inr (?r\<lparr>flags := [''--version'', ''1.19'']\<rparr>)"
    by code_simp
  have d: "dollar_free (flags ?r)" by (simp add: example_runner_def dollar_free_def)
  from offline_auth_dropped [OF off(2) ver(2), THEN conjunct1, rule_format, OF auth(1),
      of example_paths]
  have 1: "parse_single_arg example_env example_paths False (JString ''${auth_uuid}'') ?r1
      = Inr (?r\<lparr>flags := [''--width'']\<rparr>)"
    by simp
  from offline_auth_dropped [OF off(1) ver(1), THEN conjunct2, THEN conjunct1, rule_format,
      OF conjI, OF auth(2) key]
  have 2: "parse_single_args example_env example_paths False
        [JString ''--username'', JString ''${auth_player_name}''] ?r = Inr ?r" .
  from offline_auth_dropped [OF off(1) ver(1), THEN conjunct2, THEN conjunct2, THEN conjunct1,
      rule_format, OF conjI, OF run d]
  have 3: "dollar_free [''--version'', ''1.19'']
      \<and> list_all (\<lambda>f. f \<notin> set auth_placeholders) [''--version'', ''1.19'']"
    by simp
  from off(1) 1 2 run 3 show ?thesis by blast
qed

section \<open>LaunchArgumentTemplater: substitution inside a literal and of a whole literal\<close>

lemma fandr_Nil: "fandr [] f r = []"
  by (simp add: fandr.simps)

lemma fandr_skip:
  "CHR ''$'' \<notin> set pre \<Longrightarrow> f \<noteq> [] \<Longrightarrow> hd f = CHR ''$'' \<Longrightarrow>
   fandr (pre @ s) f r = pre @ fandr s f r"
proof (induction pre)
  case Nil
  then show ?case by simp
next
  case (Cons c pre)
  have "take (length f) (c # pre @ s) \<noteq> f"
  proof
    assume "take (length f) (c # pre @ s) = f"
    then have "hd f = c" using Cons.prems(2) by (cases f) auto
    with Cons.prems show False by simp
  qed
  with Cons show ?case
    by (subst fandr.simps) simp
qed

lemma fandr_free:
  "CHR ''$'' \<notin> set s \<Longrightarrow> f \<noteq> [] \<Longrightarrow> hd f = CHR ''$'' \<Longrightarrow> fandr s f r = s"
  using fandr_skip [of s f "[]" r] by (simp add: fandr_Nil)

lemma fandr_hit: "f \<noteq> [] \<Longrightarrow> fandr (f @ s) f r = r @ fandr s f r"
  by (subst fandr.simps) simp

lemma fandr_miss:
  "f \<noteq> [] \<Longrightarrow> hd f = CHR ''$'' \<Longrightarrow> CHR ''$'' \<notin> set mid \<Longrightarrow>
   take (length f) (CHR ''$'' # mid @ s) \<noteq> f \<Longrightarrow>
   fandr (CHR ''$'' # mid @ s) f r = CHR ''$'' # mid @ fandr s f r"
  by (subst fandr.simps) (simp add: fandr_skip)

lemma fandr_join_hit:
  "list_all (\<lambda>s. CHR ''$'' \<notin> set s) segs \<Longrightarrow> f \<noteq> [] \<Longrightarrow> hd f = CHR ''$'' \<Longrightarrow>
   fandr (join_with f segs) f r = join_with r segs"
proof (induction f segs rule: join_with.induct)
  case (1 sep)
  then show ?case by (simp add: fandr_Nil)
next
  case (2 sep s)
  then show ?case by (simp add: fandr_free)
next
  case (3 sep s t ss)
  then show ?case by (simp add: fandr_skip fandr_hit)
qed

lemma fandr_join_miss:
  "list_all (\<lambda>s. CHR ''$'' \<notin> set s) segs \<Longrightarrow> f \<noteq> [] \<Longrightarrow> hd f = CHR ''$'' \<Longrightarrow>
   CHR ''$'' \<notin> set mid \<Longrightarrow> (\<forall>s. take (length f) (CHR ''$'' # mid @ s) \<noteq> f) \<Longrightarrow>
   fandr (join_with (CHR ''$'' # mid) segs) f r = join_with (CHR ''$'' # mid) segs"
proof (induction "CHR ''$'' # mid" segs rule: join_with.induct)
  case 1
  then show ?case by (simp add: fandr_Nil)
next
  case (2 s)
  then show ?case by (simp add: fandr_free)
next
  case (3 s t ss)
  then show ?case by (simp add: fandr_skip fandr_miss)
qed

lemma join_with_free:
  "list_all (\<lambda>s. CHR ''$'' \<notin> set s) segs \<Longrightarrow> CHR ''$'' \<notin> set sep \<Longrightarrow>
   CHR ''$'' \<notin> set (join_with sep segs)"
  by (induction sep segs rule: join_with.induct) auto

lemma jvm_tokens_classpath:
  assumes "list_all (\<lambda>s. CHR ''$'' \<notin> set s) segs" and "CHR ''$'' \<notin> set (classpath r)"
  shows "jvm_tokens r paths vs (join_with ''${classpath}'' segs)
         = join_with (CHR 0x22 # classpath r @ [CHR 0x22]) segs
       \<and> CHR ''$'' \<notin> set (join_with (CHR 0x22 # classpath r @ [CHR 0x22]) segs)"
proof -
  have a: "fandr (join_with ''${classpath}'' segs) ''${launcher_name}'' ''mcvm''
             = join_with ''${classpath}'' segs"
    using assms(1) by (intro fandr_join_miss) (simp_all add: take_Cons')
  have b: "fandr (join_with ''${classpath}'' segs) ''${launcher_version}'' ''alpha''
             = join_with ''${classpath}'' segs"
    using assms(1) by (intro fandr_join_miss) (simp_all add: take_Cons')
  have c: "fandr (join_with ''${classpath}'' segs) ''${classpath}''
             (CHR 0x22 # classpath r @ [CHR 0x22])
           = join_with (CHR 0x22 # classpath r @ [CHR 0x22]) segs"
    using assms(1) by (intro fandr_join_hit) simp_all
  have d: "CHR ''$'' \<notin> set (join_with (CHR 0x22 # classpath r @ [CHR 0x22]) segs)"
    using assms by (intro join_with_free) simp_all
  have "jvm_tokens r paths vs (join_with ''${classpath}'' segs)
         = join_with (CHR 0x22 # classpath r @ [CHR 0x22]) segs"
    by (simp add: jvm_tokens_def a b c fandr_free [OF d])
  with d show ?thesis by simp
qed

lemma game_placeholder_shape:
  assumes "q \<in> set game_placeholders"
  shows "count_list q CHR ''$'' = 1 \<and> count_list q CHR ''}'' = 1
         \<and> hd q = CHR ''$'' \<and> last q = CHR ''}'' \<and> q \<noteq> []"
  using assms by (auto simp: game_placeholders_def auth_placeholders_def)

lemma placeholder_proper_substring:
  assumes "ph \<in> set game_placeholders" and "pre \<noteq> [] \<or> post \<noteq> []"
  shows "pre @ ph @ post \<notin> set game_placeholders"
proof
  assume q: "pre @ ph @ post \<in> set game_placeholders"
  note sq = game_placeholder_shape [OF q] and sp = game_placeholder_shape [OF assms(1)]
  from sq sp have c1: "count_list pre CHR ''$'' = 0" and c2: "count_list post CHR ''}'' = 0"
    by simp_all
  have "pre = []"
  proof (rule ccontr)
    assume "pre \<noteq> []"
    with sq have "hd pre = CHR ''$''" by simp
    with \<open>pre \<noteq> []\<close> have "count_list pre CHR ''$'' \<noteq> 0" by (cases pre) auto
    with c1 show False by simp
  qed
  moreover have "post = []"
  proof (rule ccontr)
    assume "post \<noteq> []"
    with sq have "last post = CHR ''}''" by simp
    with \<open>post \<noteq> []\<close> have "CHR ''}'' \<in> set post" using last_in_set by metis
    then have "count_list post CHR ''}'' \<noteq> 0" by (simp add: count_list_0_iff)
    with c2 show False by simp
  qed
  ultimately show False using assms(2) by simp
qed

lemma game_tokens_other:
  assumes "c \<notin> set game_placeholders"
  shows "game_tokens r paths vs c = c \<and> auth_tokens c = c
    \<and> GAME_ARG_REPL ''${user_type}'' ''mojang'' c = c \<and> c \<notin> set auth_placeholders"
  using assms
  by (auto simp: game_placeholders_def auth_placeholders_def game_tokens_def auth_tokens_def
      GAME_ARG_REPL_def)

lemma repl_arg_token_other:
  assumes "mc_version_reverse_map e (version r) = Some vs" and "c \<notin> set game_placeholders"
  shows "repl_arg_token e r c False paths
           = (if CHR ''$'' \<in> set c then Inl AssertionFailed else Inr (False, c))"
  using assms(1) game_tokens_other [OF assms(2), of r paths vs]
  by (simp add: repl_arg_token_def assert_no_dollar_def auth_placeholders_def Let_def)

text \<open>
  C10. JVM phase: in a literal made of pieces without \<open>$\<close> with \<open>${classpath}\<close> between
  each two of them, every occurrence is replaced by the quoted classpath (itself without
  \<open>$\<close>). Game phase: a literal that is exactly \<open>${version_type}\<close> is replaced, and so is
  \<open>${version_name}\<close> by a version string without \<open>$\<close>; a literal that is none of the
  placeholders comes through as it is, and fails the assertion when it has a \<open>$\<close>; this
  is what happens to a literal that has a placeholder as a proper substring: nothing in
  it is substituted.
\<close>

theorem substitution_asymmetric:
  assumes "mc_version_reverse_map e (version r) = Some vs"
  shows "(list_all (\<lambda>s. CHR ''$'' \<notin> set s) segs \<and> CHR ''$'' \<notin> set (classpath r) \<longrightarrow>
            repl_arg_token e r (join_with ''${classpath}'' segs) True paths
              = Inr (False, join_with (CHR 0x22 # classpath r @ [CHR 0x22]) segs))
       \<and> repl_arg_token e r ''${version_type}'' False paths = Inr (False, ''mcvm'')
       \<and> (CHR ''$'' \<notin> set vs \<longrightarrow>
            repl_arg_token e r ''${version_name}'' False paths = Inr (False, vs))
       \<and> (c \<notin> set game_placeholders \<longrightarrow>
            game_tokens r paths vs c = c \<and> auth_tokens c = c
          \<and> GAME_ARG_REPL ''${user_type}'' ''mojang'' c = c
          \<and> repl_arg_token e r c False paths
              = (if CHR ''$'' \<in> set c then Inl AssertionFailed else Inr (False, c)))
       \<and> (ph \<in> set game_placeholders \<and> (pre \<noteq> [] \<or> post \<noteq> []) \<longrightarrow>
            game_tokens r paths vs (pre @ ph @ post) = pre @ ph @ post
          \<and> auth_tokens (pre @ ph @ post) = pre @ ph @ post
          \<and> GAME_ARG_REPL ''${user_type}'' ''mojang'' (pre @ ph @ post) = pre @ ph @ post
          \<and> repl_arg_token e r (pre @ ph @ post) False paths = Inl AssertionFailed)"
proof (intro conjI impI)
  assume "list_all (\<lambda>s. CHR ''$'' \<notin> set s) segs \<and> CHR ''$'' \<notin> set (classpath r)"
  then show "repl_arg_token e r (join_with ''${classpath}'' segs) True paths
              = Inr (False, join_with (CHR 0x22 # classpath r @ [CHR 0x22]) segs)"
    using assms jvm_tokens_classpath [of segs r paths vs]
    by (simp add: repl_arg_token_def assert_no_dollar_def)
next
  show "repl_arg_token e r ''${version_type}'' False paths = Inr (False, ''mcvm'')"
    using assms
    by (simp add: repl_arg_token_def assert_no_dollar_def game_tokens_def auth_tokens_def
        GAME_ARG_REPL_def Let_def)
next
  assume "CHR ''$'' \<notin> set vs"
  then have "vs \<noteq> q" if "q \<in> set game_placeholders" for q
    using game_placeholder_shape [OF that] by (cases q) auto
  then have "vs \<notin> set game_placeholders" by blast
  from game_tokens_other [OF this, of r paths vs] \<open>CHR ''$'' \<notin> set vs\<close> assms
  show "repl_arg_token e r ''${version_name}'' False paths = Inr (False, vs)"
    by (auto simp: repl_arg_token_def assert_no_dollar_def game_tokens_def
        GAME_ARG_REPL_def [of "''${version_name}''"] auth_placeholders_def Let_def)
next
  assume c: "c \<notin> set game_placeholders"
  from game_tokens_other [OF c, of r paths vs]
  show "game_tokens r paths vs c = c" "auth_tokens c = c"
    "GAME_ARG_REPL ''${user_type}'' ''mojang'' c = c"
    by simp_all
  from repl_arg_token_other [OF assms c]
  show "repl_arg_token e r c False paths
              = (if CHR ''$'' \<in> set c then Inl AssertionFailed else Inr (False, c))" .
next
  assume a: "ph \<in> set game_placeholders \<and> (pre \<noteq> [] \<or> post \<noteq> [])"
  then have c: "pre @ ph @ post \<notin> set game_placeholders"
    using placeholder_proper_substring by blast
  from game_tokens_other [OF c, of r paths vs]
  show "game_tokens r paths vs (pre @ ph @ post) = pre @ ph @ post"
    "auth_tokens (pre @ ph @ post) = pre @ ph @ post"
    "GAME_ARG_REPL ''${user_type}'' ''mojang'' (pre @ ph @ post) = pre @ ph @ post"
    by simp_all
  from a game_placeholder_shape [of ph] have "CHR ''$'' \<in> set ph"
    by (cases ph) auto
  with repl_arg_token_other [OF assms c]
  show "repl_arg_token e r (pre @ ph @ post) False paths = Inl AssertionFailed"
    by simp
qed

theorem substitution_asymmetric_witness:
  "repl_arg_token example_env (example_runner False)
      ''-Djava.class.path=${classpath}:${classpath}'' True example_paths
     = Inr (False, ''-Djava.class.path='' @ CHR 0x22 # ''a.jar:b.jar'' @ CHR 0x22 # '':''
                     @ CHR 0x22 # ''a.jar:b.jar'' @ [CHR 0x22])
   \<and> repl_arg_token example_env (example_runner False) ''${version_type}'' False example_paths
     = Inr (False, ''mcvm'')
   \<and> repl_arg_token example_env (example_runner False) ''${version_name}'' False example_paths
     = Inr (False, ''1.19'')
   \<and> repl_arg_token example_env (example_runner False) ''--fullscreen'' False example_paths
     = Inr (False, ''--fullscreen'')
   \<and> auth_tokens ''--username=${auth_player_name}'' = ''--username=${auth_player_name}''
   \<and> repl_arg_token example_env (example_runner False) ''--username=${auth_player_name}'' False
        example_paths
     = Inl AssertionFailed"
proof -
  let ?r = "example_runner False"
  have ver: "mc_version_reverse_map example_env (version ?r) = Some ''1.19''"
    by (simp add: example_runner_def example_env_def)
  note t = substitution_asymmetric [OF ver]
  have 1: "repl_arg_token example_env ?r (join_with ''${classpath}''
              [''-Djava.class.path='', '':'', []]) True example_paths
      = Inr (False, join_with (CHR 0x22 # classpath ?r @ [CHR 0x22])
              [''-Djava.class.path='', '':'', []])"
    by (rule t [THEN conjunct1, rule_format]) (simp add: example_runner_def)
  have 2: "repl_arg_token example_env ?r ''${version_type}'' False example_paths
      = Inr (False, ''mcvm'')"
    by (rule t [THEN conjunct2, THEN conjunct1])
  have 3: "repl_arg_token example_env ?r ''${version_name}'' False example_paths
      = Inr (False, ''1.19'')"
    by (rule t [THEN conjunct2, THEN conjunct2, THEN conjunct1, rule_format]) simp
  have "repl_arg_token example_env ?r ''--fullscreen'' False example_paths
      = (if CHR ''$'' \<in> set ''--fullscreen'' then Inl AssertionFailed
         else Inr (False, ''--fullscreen''))"
    by (rule t [THEN conjunct2, THEN conjunct2, THEN conjunct2, THEN conjunct1, rule_format,
          THEN conjunct2, THEN conjunct2, THEN conjunct2])
       (simp add: game_placeholders_def auth_placeholders_def)
  then have 4: "repl_arg_token example_env ?r ''--fullscreen'' False example_paths
      = Inr (False, ''--fullscreen'')"
    by simp
  have "auth_tokens (''--username='' @ ''${auth_player_name}'' @ [])
          = ''--username='' @ ''${auth_player_name}'' @ []
      \<and> repl_arg_token example_env ?r (''--username='' @ ''${auth_player_name}'' @ []) False
          example_paths = Inl AssertionFailed"
    using t [THEN conjunct2, THEN conjunct2, THEN conjunct2, THEN conjunct2, rule_format,
        of "''${auth_player_name}''" "''--username=''" "[]" example_paths]
    by (simp add: game_placeholders_def auth_placeholders_def)
  then have 5: "auth_tokens ''--username=${auth_player_name}'' = ''--username=${auth_player_name}''
      \<and> repl_arg_token example_env ?r ''--username=${auth_player_name}'' False example_paths
          = Inl AssertionFailed"
    by simp
  from 1 have 1: "repl_arg_token example_env ?r ''-Djava.class.path=${classpath}:${classpath}''
      True example_paths
     = Inr (False, ''-Djava.class.path='' @ CHR 0x22 # ''a.jar:b.jar'' @ CHR 0x22 # '':''
                     @ CHR 0x22 # ''a.jar:b.jar'' @ [CHR 0x22])"
    by (simp add: example_runner_def)
  from 1 2 3 4 5 show ?thesis by blast
qed

end
